theory Spec2Isabelle
  imports Main "HOL-Library.Word" "HOL-Library.Signed_Division"
begin

section \<open>Machine types and the C library\<close>

text \<open>
  \<open>Word16\<close> is the 16-bit \<open>short\<close> of the sources, \<open>Word32\<close> the 32-bit signed type
  of the loop counter (their \<open>typedef\<close>s are in a header that is not at hand). Both are
  read as two's complement with \<open>sint\<close>; \<open>+\<close> wraps around, where C leaves the overflow
  of a signed counter undefined.
\<close>

type_synonym Word16 = "16 word"
type_synonym Word32 = "32 word"

text \<open>\<open>#define TRUE (1==1)\<close> and \<open>#define FALSE (1==0)\<close>, stored into a \<open>Word16\<close>.\<close>

definition TRUE :: Word16 where
  "TRUE = 1"

definition FALSE :: Word16 where
  "FALSE = 0"

text \<open>
  The output stream: the 16-bit items written so far and the number of \<open>fwrite\<close> calls
  made on it. A call may write fewer items than asked: the device is a function \<open>lim\<close>
  that gives, for the call with a given number, how many items it accepts at most.
\<close>

record out_file =
  contents :: "Word16 list"
  calls :: nat

text \<open>
  The items \<open>buf[off]\<close>, ..., \<open>buf[off + n - 1]\<close> that a pointer \<open>buf + off\<close> designates.
  Past the end of the array the value read is not specified, here as in C.
\<close>

definition items :: "Word16 list \<Rightarrow> nat \<Rightarrow> nat \<Rightarrow> Word16 list" where
  "items buf off n = map (\<lambda>i. buf ! i) [off ..< off + n]"

text \<open>\<open>fwrite(buf + off, sizeof(short), n, f)\<close>: returns the number of items written.\<close>

definition fwrite :: "(nat \<Rightarrow> nat) \<Rightarrow> Word16 list \<Rightarrow> nat \<Rightarrow> nat \<Rightarrow> out_file \<Rightarrow> nat \<times> out_file" where
  "fwrite lim buf off n f =
     (let k = min n (lim (calls f))
      in (k, \<lparr>contents = contents f @ items buf off k, calls = Suc (calls f)\<rparr>))"

text \<open>The conversion of an \<open>int\<close> to \<open>size_t\<close> (64 bits) at a call of \<open>fwrite\<close>.\<close>

definition size_t :: "int \<Rightarrow> nat" where
  "size_t i = nat (i mod 2 ^ 64)"

text \<open>\<open>printf("%ld", i)\<close>: the decimal digits of a signed integer.\<close>

fun dec_digits :: "nat \<Rightarrow> string" where
  "dec_digits n =
     (if n < 10 then [char_of (48 + n)]
      else dec_digits (n div 10) @ [char_of (48 + n mod 10)])"

definition fmt_ld :: "int \<Rightarrow> string" where
  "fmt_ld i = (if i < 0 then CHR ''-'' # dec_digits (nat (- i)) else dec_digits (nat i))"

text \<open>\<open>atoi\<close>: white space, an optional sign, then decimal digits.\<close>

definition isspace :: "char \<Rightarrow> bool" where
  "isspace c = (c \<in> set [CHR '' '', CHR 0x09, CHR 0x0A, CHR 0x0B, CHR 0x0C, CHR 0x0D])"

definition isdigit :: "char \<Rightarrow> bool" where
  "isdigit c = (48 \<le> (of_char c :: nat) \<and> (of_char c :: nat) \<le> 57)"

fun atoi_digits :: "int \<Rightarrow> string \<Rightarrow> int" where
  "atoi_digits acc [] = acc"
| "atoi_digits acc (c # cs) =
     (if isdigit c then atoi_digits (acc * 10 + (of_char c - 48)) cs else acc)"

definition atoi :: "string \<Rightarrow> int" where
  "atoi s =
     (case dropWhile isspace s of
        [] \<Rightarrow> 0
      | c # cs \<Rightarrow>
          if c = CHR ''-'' then - atoi_digits 0 cs
          else if c = CHR ''+'' then atoi_digits 0 cs
          else atoi_digits 0 (c # cs))"

section \<open>The routines and constants the driver links against\<close>

text \<open>
  \<open>cdecoder.c\<close> calls the deinterleavers and \<open>Channel_Decoding\<close>, and \<open>init_params.c\<close>
  reads the constants of the \<open>.tab\<close> files; none of them is part of the sources at hand,
  so they are parameters of the model. A routine that fills an array through a pointer
  takes the old contents of the array and returns the new ones. \<open>Channel_Decoding\<close> also
  owns the module-scope decoder state (\<open>'c\<close>).
\<close>

record 'c routines =
  Desinterleaving_Signalling :: "Word16 list \<Rightarrow> Word16 list \<Rightarrow> Word16 list"
  Desinterleaving_Speech :: "Word16 list \<Rightarrow> Word16 list \<Rightarrow> Word16 list"
  Channel_Decoding ::
    "'c \<Rightarrow> Word16 \<Rightarrow> Word16 \<Rightarrow> Word16 list \<Rightarrow> Word16 list \<Rightarrow> Word16 \<times> Word16 list \<times> 'c"
  Length_vocoder_frame_TETRA :: int
  Length_vocoder_frame_AMR475 :: int

section \<open>init\_params.c\<close>

text \<open>
  \<open>#define ALLOW_NEG(x) (((x) < 0) ? (((-x)%2 == 1) ? (-x)/2 - N1_2 + 1 : (x)/2 + 1) : (x))\<close>

  The operands are table entries promoted to \<open>int\<close>; \<open>/\<close> and \<open>%\<close> of C truncate
  towards zero (\<open>sdiv\<close>, \<open>smod\<close>).
\<close>

definition ALLOW_NEG :: "int \<Rightarrow> int \<Rightarrow> int" where
  "ALLOW_NEG N1_2 x =
     (if x < 0
      then (if (- x) smod 2 = 1 then (- x) sdiv 2 - N1_2 + 1 else x sdiv 2 + 1)
      else x)"

text \<open>
  \<open>for (i=0; i<SIZE_TAB_CRC1; i++) TAB_CRC1[i] = ALLOW_NEG(TAB_CRC1_TETRA[i]);\<close>
  and its siblings: the first \<open>size\<close> entries of the destination table are
  overwritten, the value being converted back to \<open>Word16\<close> by the assignment. \<open>i\<close> is
  the index reached and \<open>n\<close> the number of entries still to store.
\<close>

fun init_TAB_CRC :: "int \<Rightarrow> nat \<Rightarrow> nat \<Rightarrow> Word16 list \<Rightarrow> Word16 list \<Rightarrow> Word16 list" where
  "init_TAB_CRC N1_2 i 0 src dst = dst"
| "init_TAB_CRC N1_2 i (Suc n) src dst =
     init_TAB_CRC N1_2 (Suc i) n src
       (dst[i := word_of_int (ALLOW_NEG N1_2 (sint (src ! i)))])"

text \<open>The globals that \<open>main\<close> sets before the loop and only reads afterwards.\<close>

record globals =
  CoderType :: int
  FRAME_STEALING :: Word16
  SpFrms_per_TDMFrm :: int
  Length_vocoder_frame :: int

text \<open>The part of \<open>init_params\<close> that the driver reads back.\<close>

definition init_params :: "'c routines \<Rightarrow> globals \<Rightarrow> globals" where
  "init_params E G =
     (if CoderType G = 1
      then G\<lparr>SpFrms_per_TDMFrm := 3, Length_vocoder_frame := Length_vocoder_frame_AMR475 E\<rparr>
      else G\<lparr>SpFrms_per_TDMFrm := 2, Length_vocoder_frame := Length_vocoder_frame_TETRA E\<rparr>)"

section \<open>cdecoder.c\<close>

text \<open>The locals of \<open>main\<close>, the global \<open>Frame_stealing\<close>, and the two streams written.\<close>

record 'c state =
  Loop_counter :: Word32
  first_pass :: Word16
  bfi1 :: Word16
  bfi2 :: Word16
  bfi3 :: Word16
  mode :: Word16
  Reordered_array :: "Word16 list"
  Coded_array :: "Word16 list"
  Frame_stealing :: Word16
  decoder :: 'c
  fout :: out_file
  stdout :: "string list"

definition printf :: "string \<Rightarrow> 'c state \<Rightarrow> 'c state" where
  "printf txt s = s\<lparr>stdout := stdout s @ [txt]\<rparr>"

definition puts :: "string \<Rightarrow> 'c state \<Rightarrow> 'c state" where
  "puts txt s = printf (txt @ [CHR 0x0A]) s"

definition msg_stolen :: "Word32 \<Rightarrow> string" where
  "msg_stolen n = ''Frame Nb '' @ fmt_ld (sint n) @ '' was stolen'' @ [CHR 0x0A]"

definition msg_bfi :: "Word32 \<Rightarrow> string" where
  "msg_bfi n = ''Frame Nb '' @ fmt_ld (sint n) @ '' Bfi active'' @ [CHR 0x0A, CHR 0x0A]"

definition msg_cant_write :: string where
  "msg_cant_write = ''cdecoder: can't write to output_file''"

text \<open>
  \<open>if (FRAME_STEALING) Frame_stealing = ((Loop_counter%10) == 2);\<close>
\<close>

definition set_stealing :: "globals \<Rightarrow> 'c state \<Rightarrow> 'c state" where
  "set_stealing G s =
     (if FRAME_STEALING G \<noteq> 0
      then s\<lparr>Frame_stealing := (if sint (Loop_counter s) smod 10 = 2 then 1 else 0)\<rparr>
      else s)"

text \<open>Lines 138 to 147: deinterleaving of the slot just read into \<open>Coded_array\<close>.\<close>

definition desinterleave :: "'c routines \<Rightarrow> Word16 list \<Rightarrow> 'c state \<Rightarrow> 'c state" where
  "desinterleave E slot s =
     (if Frame_stealing s \<noteq> 0
      then s\<lparr>Coded_array :=
               take 216 slot @
               Desinterleaving_Signalling E (drop 216 slot) (drop 216 (Coded_array s))\<rparr>
      else s\<lparr>Coded_array := Desinterleaving_Speech E slot (Coded_array s)\<rparr>)"

text \<open>The call \<open>Channel_Decoding(first_pass, Frame_stealing, Coded_array, Reordered_array)\<close>.\<close>

definition call_Channel_Decoding :: "'c routines \<Rightarrow> 'c state \<Rightarrow> Word16 \<times> 'c state" where
  "call_Channel_Decoding E s =
     (case Channel_Decoding E (decoder s) (first_pass s) (Frame_stealing s)
             (Coded_array s) (Reordered_array s) of
        (r, arr, c) \<Rightarrow> (r, s\<lparr>Reordered_array := arr, decoder := c\<rparr>))"

text \<open>
  \<open>if (Frame_stealing) printf("Frame Nb %ld was stolen\n", Loop_counter+1);\<close> and
  \<open>if (bfi) printf("Frame Nb %ld Bfi active\n\n", Loop_counter+1);\<close>
\<close>

definition report_stolen :: "'c state \<Rightarrow> 'c state" where
  "report_stolen s =
     (if Frame_stealing s \<noteq> 0 then printf (msg_stolen (Loop_counter s + 1)) s else s)"

definition report_bfi :: "Word16 \<Rightarrow> 'c state \<Rightarrow> 'c state" where
  "report_bfi b s = (if b \<noteq> 0 then printf (msg_bfi (Loop_counter s + 1)) s else s)"

text \<open>Lines 155 to 164, the branch \<open>CoderType == 0\<close>.\<close>

definition decode_TETRA :: "'c routines \<Rightarrow> 'c state \<Rightarrow> 'c state" where
  "decode_TETRA E s =
     (let a = report_stolen s;
          b = a\<lparr>bfi1 := Frame_stealing a\<rparr>;
          (r, c) = call_Channel_Decoding E b;
          d = c\<lparr>bfi2 := r\<rparr>;
          e = (if Frame_stealing d = 0 \<and> bfi2 d = 1 then d\<lparr>bfi1 := 1\<rparr> else d)
      in report_bfi (bfi2 e) e)"

text \<open>Lines 168 to 177, the other branch.\<close>

definition decode_AMR :: "'c routines \<Rightarrow> 'c state \<Rightarrow> 'c state" where
  "decode_AMR E s =
     (let a = report_stolen s;
          b = a\<lparr>bfi2 := Frame_stealing a\<rparr>;
          (r, c) = call_Channel_Decoding E b;
          d = c\<lparr>bfi1 := r\<rparr>;
          e = (if Frame_stealing d = 0 \<and> bfi1 d = 1 then d\<lparr>bfi2 := 1\<rparr> else d)
      in report_bfi (bfi1 e) e)"

text \<open>Lines 153 to 182: channel decoding, then \<open>first_pass = FALSE; Loop_counter++;\<close>\<close>

definition channel_decode :: "'c routines \<Rightarrow> globals \<Rightarrow> 'c state \<Rightarrow> 'c state" where
  "channel_decode E G s =
     (let t = (if CoderType G = 0 then decode_TETRA E s else decode_AMR E s)
      in t\<lparr>first_pass := FALSE, Loop_counter := Loop_counter t + 1\<rparr>)"

text \<open>
  \<open>if (fwrite(buf + off, sizeof(short), n, fout) != n) { puts(...); break; }\<close>:
  the flag returned says whether the loop is left.
\<close>

definition checked_fwrite ::
  "(nat \<Rightarrow> nat) \<Rightarrow> Word16 list \<Rightarrow> nat \<Rightarrow> nat \<Rightarrow> 'c state \<Rightarrow> 'c state \<times> bool" where
  "checked_fwrite lim buf off n s =
     (case fwrite lim buf off n (fout s) of
        (k, f) \<Rightarrow>
          if k \<noteq> n then (puts msg_cant_write (s\<lparr>fout := f\<rparr>), True)
          else (s\<lparr>fout := f\<rparr>, False))"

text \<open>\<open>fwrite(buf, sizeof(short), n, fout);\<close> with the result dropped.\<close>

definition plain_fwrite :: "(nat \<Rightarrow> nat) \<Rightarrow> Word16 list \<Rightarrow> nat \<Rightarrow> 'c state \<Rightarrow> 'c state" where
  "plain_fwrite lim buf n s = s\<lparr>fout := snd (fwrite lim buf 0 n (fout s))\<rparr>"

text \<open>Sequencing of statements of the loop body: nothing runs after a \<open>break\<close>.\<close>

definition and_then :: "'c state \<times> bool \<Rightarrow> ('c state \<Rightarrow> 'c state \<times> bool) \<Rightarrow> 'c state \<times> bool" where
  "and_then r g = (if snd r then r else g (fst r))"

text \<open>\<open>Word16 Zeros[250]\<close>, filled with zeros before the arguments are parsed.\<close>

definition Zeros :: "Word16 list" where
  "Zeros = replicate 250 0"

text \<open>Lines 186 to 209.\<close>

definition write_TETRA :: "(nat \<Rightarrow> nat) \<Rightarrow> 'c state \<Rightarrow> 'c state \<times> bool" where
  "write_TETRA lim s =
     and_then (checked_fwrite lim [bfi1 s] 0 1 s) (\<lambda>s.
     and_then (checked_fwrite lim (Reordered_array s) 0 137 s) (\<lambda>s.
     and_then (checked_fwrite lim [bfi2 s] 0 1 s) (\<lambda>s.
     checked_fwrite lim (Reordered_array s) 137 137 s)))"

text \<open>
  One speech frame of lines 210 to 257: the header derived from the indicator \<open>b\<close>, the
  frame at \<open>Reordered_array + off\<close>, then the three writes whose result is not looked at.
\<close>

definition write_AMR_frame ::
  "(nat \<Rightarrow> nat) \<Rightarrow> globals \<Rightarrow> ('c state \<Rightarrow> Word16) \<Rightarrow> nat \<Rightarrow> 'c state \<Rightarrow> 'c state \<times> bool" where
  "write_AMR_frame lim G b off s =
     (let s0 = s\<lparr>bfi3 := (if b s \<noteq> 0 then 3 else 0)\<rparr>
      in and_then (checked_fwrite lim [bfi3 s0] 0 1 s0) (\<lambda>s.
         and_then (checked_fwrite lim (Reordered_array s) off
                     (size_t (Length_vocoder_frame G)) s) (\<lambda>s.
         (plain_fwrite lim Zeros 4
            (plain_fwrite lim [mode s] 1
               (plain_fwrite lim Zeros (size_t (244 - Length_vocoder_frame G)) s)),
          False))))"

definition write_AMR :: "(nat \<Rightarrow> nat) \<Rightarrow> globals \<Rightarrow> 'c state \<Rightarrow> 'c state \<times> bool" where
  "write_AMR lim G s =
     (let s0 = s\<lparr>mode := word_of_int (CoderType G - 1)\<rparr>
      in and_then (write_AMR_frame lim G bfi1 0 s0) (\<lambda>s.
         and_then (write_AMR_frame lim G bfi1 (nat (Length_vocoder_frame G)) s) (\<lambda>s.
         write_AMR_frame lim G bfi2 (nat (2 * Length_vocoder_frame G)) s)))"

definition write_slot :: "(nat \<Rightarrow> nat) \<Rightarrow> globals \<Rightarrow> 'c state \<Rightarrow> 'c state \<times> bool" where
  "write_slot lim G s = (if CoderType G = 0 then write_TETRA lim s else write_AMR lim G s)"

text \<open>One turn of \<open>while (1)\<close> after a successful read of \<open>slot\<close>.\<close>

definition loop_body ::
  "'c routines \<Rightarrow> (nat \<Rightarrow> nat) \<Rightarrow> globals \<Rightarrow> Word16 list \<Rightarrow> 'c state \<Rightarrow> 'c state \<times> bool" where
  "loop_body E lim G slot s =
     write_slot lim G (channel_decode E G (desinterleave E slot (set_stealing G s)))"

text \<open>
  Modelled from the spec: \<open>Read_Tetra_File\<close> (its source is not at hand) reads one slot
  of 432 samples per call and returns -1 at the end of the stream. The input file is the
  list of the slots it holds.
\<close>

fun main_loop ::
  "'c routines \<Rightarrow> (nat \<Rightarrow> nat) \<Rightarrow> globals \<Rightarrow> Word16 list list \<Rightarrow> 'c state \<Rightarrow> 'c state" where
  "main_loop E lim G [] s = puts ''cdecoder: reached end of input_file'' (set_stealing G s)"
| "main_loop E lim G (slot # rest) s =
     (case loop_body E lim G slot s of
        (s', brk) \<Rightarrow> if brk then s' else main_loop E lim G rest s')"

text \<open>
  The slots processed before the loop is left, without the handling of the end of the
  input: the state reached and whether a \<open>break\<close> was taken.
\<close>

fun run_slots ::
  "'c routines \<Rightarrow> (nat \<Rightarrow> nat) \<Rightarrow> globals \<Rightarrow> Word16 list list \<Rightarrow> 'c state \<Rightarrow> 'c state \<times> bool" where
  "run_slots E lim G [] s = (s, False)"
| "run_slots E lim G (slot # rest) s =
     (case loop_body E lim G slot s of
        (s', brk) \<Rightarrow> if brk then (s', True) else run_slots E lim G rest s')"

text \<open>
  What a run leaves behind: the exit status, the text printed, and the output file
  (\<open>None\<close> when it was never opened).
\<close>

record outcome =
  exit_status :: int
  printed :: "string list"
  written :: "Word16 list option"

definition usage :: "string list" where
  "usage =
     [''usage : cdecoder input_file output_file [CoderType [S]]'',
      ''format for input_file  : $6B21...114 bits'',
      ''       ...$6B22...114...'',
      ''       ...$6B26...114...$6B21'',
      ''format for output_file : two 138 (BFI + 137) bit frames'',
      ''CoderType = 0 - TETRA (default)'',
      ''            1 - AMR475 '',
      ''S = Stealing at 10% of TDMA Frames '']"

definition exit_1 :: "string list \<Rightarrow> Word16 list option \<Rightarrow> outcome" where
  "exit_1 msgs file =
     \<lparr>exit_status = 1, printed = map (\<lambda>m. m @ [CHR 0x0A]) msgs, written = file\<rparr>"

text \<open>
  Lines 78 to 121: the arguments (\<open>argc = length argv\<close>), the two \<open>fopen\<close> calls
  (\<open>fin = None\<close>: the input file cannot be opened; \<open>out_ok\<close>: the output file can) and
  \<open>init_params\<close>. The result is either the outcome of \<open>exit(1)\<close>, or the globals
  and the slots of the input file.
\<close>

definition startup ::
  "'c routines \<Rightarrow> string list \<Rightarrow> Word16 list list option \<Rightarrow> bool
     \<Rightarrow> outcome + globals \<times> Word16 list list" where
  "startup E argv fin out_ok =
     (if length argv < 3 \<or> length argv > 5 then Inl (exit_1 usage None)
      else case fin of
        None \<Rightarrow> Inl (exit_1 [''cdecoder: can't open input_file''] None)
      | Some slots \<Rightarrow>
          if \<not> out_ok then Inl (exit_1 [''cdecoder: can't open output_file''] None)
          else if length argv \<ge> 4
          then
            (let ct = atoi (argv ! 3)
             in if ct < 0 \<or> ct > 1
                then Inl (exit_1 [''chanlcod: Illegal value of CoderType''] (Some []))
                else
                  Inr (init_params E
                    \<lparr>CoderType = ct,
                     FRAME_STEALING =
                       (if length argv > 4 \<and>
                           (case argv ! 4 of [] \<Rightarrow> False | c # cs \<Rightarrow> c = CHR ''S'')
                        then TRUE else FALSE),
                     SpFrms_per_TDMFrm = 0, Length_vocoder_frame = 0\<rparr>, slots))
          else
            Inr (init_params E
              \<lparr>CoderType = 0, FRAME_STEALING = FALSE,
               SpFrms_per_TDMFrm = 0, Length_vocoder_frame = 0\<rparr>, slots))"

text \<open>
  The variables with an initialiser, written over the memory \<open>mem\<close> that the program
  starts on: the arrays and \<open>mode\<close> have none and keep what \<open>mem\<close> holds.
\<close>

definition init_locals :: "'c state \<Rightarrow> 'c state" where
  "init_locals mem =
     mem\<lparr>Loop_counter := 0, first_pass := TRUE, bfi1 := 0, bfi2 := 0, bfi3 := 0,
         Frame_stealing := 0, fout := \<lparr>contents = [], calls = 0\<rparr>, stdout := []\<rparr>"

text \<open>Lines 260 to 267.\<close>

definition finish :: "globals \<Rightarrow> 'c state \<Rightarrow> outcome" where
  "finish G s =
     (let s1 = printf (fmt_ld (sint (Loop_counter s)) @ '' Channel Frames processed'' @ [CHR 0x0A]) s;
          s2 = printf (''ie '' @
                 fmt_ld (sint (word_of_int (SpFrms_per_TDMFrm G) * Loop_counter s1)) @
                 '' Speech Frames'' @ [CHR 0x0A]) s1
      in \<lparr>exit_status = 0, printed = stdout s2, written = Some (contents (fout s2))\<rparr>)"

definition main ::
  "'c routines \<Rightarrow> (nat \<Rightarrow> nat) \<Rightarrow> 'c state \<Rightarrow> string list \<Rightarrow> Word16 list list option \<Rightarrow> bool
     \<Rightarrow> outcome" where
  "main E lim mem argv fin out_ok =
     (case startup E argv fin out_ok of
        Inl out \<Rightarrow> out
      | Inr (G, slots) \<Rightarrow> finish G (main_loop E lim G slots (init_locals mem)))"

section \<open>The specification's record of an AMR475 speech frame\<close>

text \<open>
  \<open><bfi3:16> <frame[Lvf]:16> <zeros[244 - Lvf]:16> <mode:16> <zeros[4]:16>\<close>, the header
  being 3 for an indicator that is set and 0 for one that is clear.
\<close>

definition AMR_record :: "Word16 \<Rightarrow> Word16 list \<Rightarrow> nat \<Rightarrow> int \<Rightarrow> Word16 \<Rightarrow> Word16 list" where
  "AMR_record b arr off L m =
     [if b \<noteq> 0 then 3 else 0] @ items arr off (nat L) @ replicate (nat (244 - L)) 0 @
     [m] @ replicate 4 0"

section \<open>Sample inputs\<close>

text \<open>
  Routines that copy the slot and report a good frame, the frame lengths 137 and 95,
  a memory of zeros, a slot of 432 strong ones, and an output device that takes up to
  250 items on every call.
\<close>

definition sample_routines :: "unit routines" where
  "sample_routines =
     \<lparr>Desinterleaving_Signalling = (\<lambda>inp old. inp),
      Desinterleaving_Speech = (\<lambda>inp old. inp),
      Channel_Decoding = (\<lambda>c fp fs coded arr. (0, arr, c)),
      Length_vocoder_frame_TETRA = 137,
      Length_vocoder_frame_AMR475 = 95\<rparr>"


definition sample_memory :: "unit state" where
  "sample_memory =
     \<lparr>Loop_counter = 0, first_pass = 0, bfi1 = 0, bfi2 = 0, bfi3 = 0, mode = 0,
      Reordered_array = replicate 686 0, Coded_array = replicate 432 0,
      Frame_stealing = 0, decoder = (), fout = \<lparr>contents = [], calls = 0\<rparr>, stdout = []\<rparr>"

definition sample_slot :: "Word16 list" where
  "sample_slot = replicate 432 127"

definition unlimited :: "nat \<Rightarrow> nat" where
  "unlimited i = 250"

definition sample_TETRA :: globals where
  "sample_TETRA =
     \<lparr>CoderType = 0, FRAME_STEALING = TRUE, SpFrms_per_TDMFrm = 2, Length_vocoder_frame = 137\<rparr>"

definition sample_AMR475 :: globals where
  "sample_AMR475 =
     \<lparr>CoderType = 1, FRAME_STEALING = TRUE, SpFrms_per_TDMFrm = 3, Length_vocoder_frame = 95\<rparr>"

definition sample_file :: "Word16 list list" where
  "sample_file = [sample_slot, sample_slot, sample_slot]"

text \<open>An output device that takes every item of the first \<open>n\<close> calls and nothing afterwards.\<close>

definition disk_full_after :: "nat \<Rightarrow> nat \<Rightarrow> nat" where
  "disk_full_after n i = (if i < n then 250 else 0)"

section \<open>The \<open>ALLOW_NEG\<close> mapping\<close>

lemma sdiv_neg_2: "x < 0 \<Longrightarrow> (x::int) sdiv 2 = - ((- x) div 2)"
  by (simp add: signed_divide_int_def sgn_if abs_if)

lemma sdiv_pos_2: "0 \<le> x \<Longrightarrow> (x::int) sdiv 2 = x div 2"
  by (simp add: signed_divide_int_def sgn_if abs_if)

lemma smod_pos_2: "0 \<le> x \<Longrightarrow> (x::int) smod 2 = x mod 2"
  by (simp add: signed_modulo_int_def sgn_if abs_if)

lemma ALLOW_NEG_cases:
  "ALLOW_NEG n x =
     (if 0 \<le> x then x else if odd (- x) then (- x) div 2 - n + 1 else - ((- x) div 2) + 1)"
proof (cases "0 \<le> x")
  case True
  then show ?thesis by (simp add: ALLOW_NEG_def)
next
  case False
  then have neg: "x < 0" and pos: "0 \<le> - x" by simp_all
  have m: "(- x) smod 2 = (- x) mod 2" by (rule smod_pos_2 [OF pos])
  have d: "(- x) sdiv 2 = (- x) div 2" by (rule sdiv_pos_2 [OF pos])
  have t: "x sdiv 2 = - ((- x) div 2)" by (rule sdiv_neg_2 [OF neg])
  have o: "((- x) mod 2 = 1) = odd (- x)" by (simp only: odd_iff_mod_2_eq_one)
  have "ALLOW_NEG n x =
      (if (- x) smod 2 = 1 then (- x) sdiv 2 - n + 1 else x sdiv 2 + 1)"
    using neg unfolding ALLOW_NEG_def by (simp only: if_True)
  also have "\<dots> = (if odd (- x) then (- x) div 2 - n + 1 else - ((- x) div 2) + 1)"
    by (simp only: m d t o)
  finally show ?thesis using False by (simp only: if_False)
qed

text \<open>
  The table loops store the mapping of each source entry, and nothing else.
\<close>

lemma init_TAB_CRC_length: "length (init_TAB_CRC n i k src dst) = length dst"
  by (induction k arbitrary: i dst) simp_all

lemma init_TAB_CRC_nth:
  "j < length dst \<Longrightarrow>
   init_TAB_CRC n i k src dst ! j =
     (if i \<le> j \<and> j < i + k then word_of_int (ALLOW_NEG n (sint (src ! j))) else dst ! j)"
proof (induction k arbitrary: i dst)
  case 0
  then show ?case by auto
next
  case (Suc k)
  let ?d = "dst[i := word_of_int (ALLOW_NEG n (sint (src ! i)))]"
  have "init_TAB_CRC n (Suc i) k src ?d ! j =
      (if Suc i \<le> j \<and> j < Suc i + k then word_of_int (ALLOW_NEG n (sint (src ! j))) else ?d ! j)"
    by (rule Suc.IH) (simp add: Suc.prems)
  with Suc.prems show ?case by (cases "j = i") (auto simp: nth_list_update)
qed

lemma sint_word_of_int_16:
  "- 32768 \<le> v \<Longrightarrow> v < 32768 \<Longrightarrow> sint (word_of_int v :: Word16) = v"
proof -
  assume v: "- 32768 \<le> v" "v < 32768"
  have "sint (word_of_int v :: Word16) = signed_take_bit (LENGTH(16) - 1) v"
    by (rule sint_sbintrunc')
  also have "\<dots> = v"
    using v by (simp add: signed_take_bit_int_eq_self_iff)
  finally show ?thesis .
qed

lemma sint_16_range: "- 32768 \<le> sint (w :: Word16)" "sint (w :: Word16) < 32768"
  using sint_ge [of w] sint_lt [of w] by simp_all

lemma ALLOW_NEG_range:
  assumes N: "0 \<le> n" "n \<le> 16384" and x: "- 32768 \<le> x" "x < 32768"
  shows "- 32768 \<le> ALLOW_NEG n x" and "ALLOW_NEG n x < 32768"
proof -
  have h: "0 \<le> (- x) div 2 \<and> (- x) div 2 \<le> 16384" if "x < 0"
  proof -
    from that have "0 \<le> - x" by simp
    then have a: "0 \<le> (- x) div 2" by simp
    have "(- x) div 2 \<le> 32768 div 2" using x by (intro zdiv_mono1) simp_all
    with a show ?thesis by simp
  qed
  show "- 32768 \<le> ALLOW_NEG n x" using N x h by (auto simp: ALLOW_NEG_cases)
  show "ALLOW_NEG n x < 32768" using N x h by (auto simp: ALLOW_NEG_cases)
qed

text \<open>
  The mapping stores one integer and no flag: the entries \<open>-2\<close>, a flipped one, and
  \<open>0\<close>, one that is not, are both stored as \<open>0\<close>.
\<close>

theorem ALLOW_NEG_same_entry_counterexample:
  "ALLOW_NEG 56 (- 2) = 0 \<and> ALLOW_NEG 56 0 = 0 \<and>
   init_TAB_CRC 56 0 2 [- 2, 0] [1, 1] = [0, 0]"
  by (simp add: ALLOW_NEG_cases numeral_2_eq_2)

text \<open>
  C7 (amended). For every integer \<open>x\<close> the macro gives \<open>x\<close> if \<open>x \<ge> 0\<close>,
  \<open>(-x)/2 - N1_2 + 1\<close> if \<open>x < 0\<close> and \<open>-x\<close> is odd, and \<open>x/2 + 1\<close> if \<open>x < 0\<close> and
  \<open>-x\<close> is even, the division truncating towards zero. At parameter-build time each of
  the first \<open>n\<close> entries of a table is overwritten by the mapping of the source entry,
  converted to \<open>Word16\<close>; for \<open>N1_2\<close> between 0 and 16384 the conversion loses nothing.
  Only this integer is stored.
\<close>

theorem ALLOW_NEG_table_entries:
  "(0 \<le> x \<longrightarrow> ALLOW_NEG N1_2 x = x) \<and>
   (x < 0 \<and> odd (- x) \<longrightarrow> ALLOW_NEG N1_2 x = (- x) div 2 - N1_2 + 1) \<and>
   (x < 0 \<and> even (- x) \<longrightarrow>
      ALLOW_NEG N1_2 x = x sdiv 2 + 1 \<and> x sdiv 2 = - ((- x) div 2)) \<and>
   (j < n \<and> j < length dst \<longrightarrow>
      init_TAB_CRC N1_2 0 n src dst ! j = word_of_int (ALLOW_NEG N1_2 (sint (src ! j))) \<and>
      (0 \<le> N1_2 \<and> N1_2 \<le> 16384 \<longrightarrow>
         sint (init_TAB_CRC N1_2 0 n src dst ! j) = ALLOW_NEG N1_2 (sint (src ! j))))"
proof -
  have macro: "(0 \<le> x \<longrightarrow> ALLOW_NEG N1_2 x = x) \<and>
   (x < 0 \<and> odd (- x) \<longrightarrow> ALLOW_NEG N1_2 x = (- x) div 2 - N1_2 + 1) \<and>
   (x < 0 \<and> even (- x) \<longrightarrow>
      ALLOW_NEG N1_2 x = x sdiv 2 + 1 \<and> x sdiv 2 = - ((- x) div 2))"
    by (auto simp: ALLOW_NEG_cases sdiv_neg_2)
  have entry: "init_TAB_CRC N1_2 0 n src dst ! j = word_of_int (ALLOW_NEG N1_2 (sint (src ! j)))"
    if "j < n" "j < length dst"
    using that by (simp add: init_TAB_CRC_nth)
  have val: "sint (init_TAB_CRC N1_2 0 n src dst ! j) = ALLOW_NEG N1_2 (sint (src ! j))"
    if "j < n" "j < length dst" "0 \<le> N1_2" "N1_2 \<le> 16384"
  proof -
    note r = ALLOW_NEG_range [OF that(3,4) sint_16_range, of "src ! j"]
    show ?thesis by (simp only: entry [OF that(1,2)] sint_word_of_int_16 [OF r])
  qed
  from macro entry val show ?thesis by blast
qed

theorem ALLOW_NEG_table_entries_witness:
  "ALLOW_NEG 56 7 = 7 \<and> ALLOW_NEG 56 (- 7) = - 52 \<and> ALLOW_NEG 56 (- 8) = - 3 \<and>
   sint (init_TAB_CRC 56 0 3 [7, - 7, - 8] [0, 0, 0] ! 1) = - 52 \<and>
   sint (init_TAB_CRC 56 0 3 [7, - 7, - 8] [0, 0, 0] ! 2) = - 3"
  using ALLOW_NEG_table_entries [of 7 56 1 3 "[0, 0, 0]" "[7, - 7, - 8]"]
    ALLOW_NEG_table_entries [of "- 7" 56 2 3 "[0, 0, 0]" "[7, - 7, - 8]"]
    ALLOW_NEG_table_entries [of "- 8" 56 0 3 "[0, 0, 0]" "[7, - 7, - 8]"]
  by simp

section \<open>Writing to the output file\<close>

lemma length_items: "length (items buf off n) = n"
  by (simp add: items_def)

lemma items_single: "items [x] 0 (Suc 0) = [x]"
  by (simp add: items_def)

lemma items_Zeros: "n \<le> 250 \<Longrightarrow> items Zeros 0 n = replicate n 0"
  by (auto simp: items_def Zeros_def intro!: nth_equalityI)

lemma fwrite_full:
  "n \<le> lim (calls f) \<Longrightarrow>
   fwrite lim buf off n f = (n, \<lparr>contents = contents f @ items buf off n, calls = Suc (calls f)\<rparr>)"
  by (simp add: fwrite_def min_def)

lemma checked_fwrite_full:
  "n \<le> lim (calls (fout s)) \<Longrightarrow>
   checked_fwrite lim buf off n s =
     (s\<lparr>fout := \<lparr>contents = contents (fout s) @ items buf off n, calls = Suc (calls (fout s))\<rparr>\<rparr>, False)"
  by (simp add: checked_fwrite_def fwrite_full)

lemma plain_fwrite_full:
  "n \<le> lim (calls (fout s)) \<Longrightarrow>
   plain_fwrite lim buf n s =
     s\<lparr>fout := \<lparr>contents = contents (fout s) @ items buf 0 n, calls = Suc (calls (fout s))\<rparr>\<rparr>"
  by (simp add: plain_fwrite_def fwrite_full)

lemma plain_fwrite_eq:
  "plain_fwrite lim buf n s =
     s\<lparr>fout := \<lparr>contents = contents (fout s) @ items buf 0 (min n (lim (calls (fout s)))),
                  calls = Suc (calls (fout s))\<rparr>\<rparr>"
  by (simp add: plain_fwrite_def fwrite_def Let_def)

text \<open>
  What any sequence of writes does to the state: items are appended to the output file,
  the message is printed exactly when the loop is left, and of the variables only
  \<open>bfi3\<close> and \<open>mode\<close> may change.
\<close>

lemma checked_fwrite_effect:
  "\<exists>ys c b m. fst (checked_fwrite lim buf off n s) =
     s\<lparr>fout := \<lparr>contents = contents (fout s) @ ys, calls = c\<rparr>,
       stdout := stdout s @ (if snd (checked_fwrite lim buf off n s) then [msg_cant_write @ [CHR 0x0A]] else []),
       bfi3 := b, mode := m\<rparr>"
proof -
  obtain k f where kf: "fwrite lim buf off n (fout s) = (k, f)" by (cases "fwrite lim buf off n (fout s)")
  then have f: "f = \<lparr>contents = contents (fout s) @ items buf off k, calls = Suc (calls (fout s))\<rparr>"
    by (auto simp: fwrite_def Let_def)
  show ?thesis
    apply (rule exI[of _ "items buf off k"], rule exI[of _ "Suc (calls (fout s))"])
    apply (rule exI[of _ "bfi3 s"], rule exI[of _ "mode s"])
    by (simp add: checked_fwrite_def kf f puts_def printf_def)
qed

lemma plain_fwrite_effect:
  "\<exists>ys c b m. plain_fwrite lim buf n s =
     s\<lparr>fout := \<lparr>contents = contents (fout s) @ ys, calls = c\<rparr>,
       stdout := stdout s @ [], bfi3 := b, mode := m\<rparr>"
  apply (rule exI[of _ "items buf 0 (min n (lim (calls (fout s))))"], rule exI[of _ "Suc (calls (fout s))"])
  apply (rule exI[of _ "bfi3 s"], rule exI[of _ "mode s"])
  by (simp add: plain_fwrite_def fwrite_def Let_def)

lemma and_then_effect:
  assumes r: "\<exists>ys c b m. fst r =
     s\<lparr>fout := \<lparr>contents = contents (fout s) @ ys, calls = c\<rparr>,
       stdout := stdout s @ (if snd r then [e] else []), bfi3 := b, mode := m\<rparr>"
    and g: "\<And>t. \<exists>ys c b m. fst (g t) =
     t\<lparr>fout := \<lparr>contents = contents (fout t) @ ys, calls = c\<rparr>,
       stdout := stdout t @ (if snd (g t) then [e] else []), bfi3 := b, mode := m\<rparr>"
  shows "\<exists>ys c b m. fst (and_then r g) =
     s\<lparr>fout := \<lparr>contents = contents (fout s) @ ys, calls = c\<rparr>,
       stdout := stdout s @ (if snd (and_then r g) then [e] else []), bfi3 := b, mode := m\<rparr>"
proof (cases "snd r")
  case True
  then show ?thesis using r by (simp add: and_then_def)
next
  case False
  from r False obtain ys c b m where 1: "fst r =
     s\<lparr>fout := \<lparr>contents = contents (fout s) @ ys, calls = c\<rparr>, stdout := stdout s @ [], bfi3 := b, mode := m\<rparr>"
    by auto
  from g[of "fst r"] obtain ys' c' b' m' where 2: "fst (g (fst r)) =
     (fst r)\<lparr>fout := \<lparr>contents = contents (fout (fst r)) @ ys', calls = c'\<rparr>,
       stdout := stdout (fst r) @ (if snd (g (fst r)) then [e] else []), bfi3 := b', mode := m'\<rparr>"
    by blast
  show ?thesis
    apply (rule exI[of _ "ys @ ys'"], rule exI[of _ c'], rule exI[of _ b'], rule exI[of _ m'])
    using False by (simp add: and_then_def 2) (simp add: 1)
qed

lemma write_TETRA_effect:
  "\<exists>ys c b m. fst (write_TETRA lim s) =
     s\<lparr>fout := \<lparr>contents = contents (fout s) @ ys, calls = c\<rparr>,
       stdout := stdout s @ (if snd (write_TETRA lim s) then [msg_cant_write @ [CHR 0x0A]] else []),
       bfi3 := b, mode := m\<rparr>"
  unfolding write_TETRA_def
  by (intro and_then_effect checked_fwrite_effect)

lemma write_AMR_frame_effect:
  "\<exists>ys c b m. fst (write_AMR_frame lim G h off s) =
     s\<lparr>fout := \<lparr>contents = contents (fout s) @ ys, calls = c\<rparr>,
       stdout := stdout s @ (if snd (write_AMR_frame lim G h off s) then [msg_cant_write @ [CHR 0x0A]] else []),
       bfi3 := b, mode := m\<rparr>"
proof -
  let ?s0 = "s\<lparr>bfi3 := (if h s \<noteq> 0 then 3 else 0)\<rparr>"
  let ?tail = "\<lambda>s. (plain_fwrite lim Zeros 4
            (plain_fwrite lim [mode s] 1
               (plain_fwrite lim Zeros (size_t (244 - Length_vocoder_frame G)) s)),
          False)"
  let ?r = "and_then (checked_fwrite lim [bfi3 ?s0] 0 1 ?s0) (\<lambda>s.
         and_then (checked_fwrite lim (Reordered_array s) off
                     (size_t (Length_vocoder_frame G)) s) ?tail)"
  have tail: "\<exists>ys c b m. fst (?tail t) =
     t\<lparr>fout := \<lparr>contents = contents (fout t) @ ys, calls = c\<rparr>,
       stdout := stdout t @ (if snd (?tail t) then [msg_cant_write @ [CHR 0x0A]] else []),
       bfi3 := b, mode := m\<rparr>" for t :: "'a state"
    apply (simp add: plain_fwrite_eq)
    apply (rule exI[of _ "items Zeros 0 (min (size_t (244 - Length_vocoder_frame G)) (lim (calls (fout t)))) @
        items [mode t] 0 (min (Suc 0) (lim (Suc (calls (fout t))))) @
        items Zeros 0 (min 4 (lim (Suc (Suc (calls (fout t))))))"])
    apply (rule exI[of _ "Suc (Suc (Suc (calls (fout t))))"])
    apply (rule exI[of _ "bfi3 t"], rule exI[of _ "mode t"])
    by simp
  have "\<exists>ys c b m. fst ?r =
     ?s0\<lparr>fout := \<lparr>contents = contents (fout ?s0) @ ys, calls = c\<rparr>,
       stdout := stdout ?s0 @ (if snd ?r then [msg_cant_write @ [CHR 0x0A]] else []),
       bfi3 := b, mode := m\<rparr>"
    by (intro and_then_effect checked_fwrite_effect tail)
  moreover have "write_AMR_frame lim G h off s = ?r"
    by (simp add: write_AMR_frame_def Let_def)
  ultimately show ?thesis by simp
qed

lemma write_AMR_effect:
  "\<exists>ys c b m. fst (write_AMR lim G s) =
     s\<lparr>fout := \<lparr>contents = contents (fout s) @ ys, calls = c\<rparr>,
       stdout := stdout s @ (if snd (write_AMR lim G s) then [msg_cant_write @ [CHR 0x0A]] else []),
       bfi3 := b, mode := m\<rparr>"
proof -
  let ?s0 = "s\<lparr>mode := word_of_int (CoderType G - 1)\<rparr>"
  let ?r = "and_then (write_AMR_frame lim G bfi1 0 ?s0) (\<lambda>s.
         and_then (write_AMR_frame lim G bfi1 (nat (Length_vocoder_frame G)) s) (\<lambda>s.
         write_AMR_frame lim G bfi2 (nat (2 * Length_vocoder_frame G)) s))"
  have "\<exists>ys c b m. fst ?r =
     ?s0\<lparr>fout := \<lparr>contents = contents (fout ?s0) @ ys, calls = c\<rparr>,
       stdout := stdout ?s0 @ (if snd ?r then [msg_cant_write @ [CHR 0x0A]] else []),
       bfi3 := b, mode := m\<rparr>"
    by (intro and_then_effect write_AMR_frame_effect)
  moreover have "write_AMR lim G s = ?r"
    by (simp add: write_AMR_def Let_def)
  ultimately show ?thesis by simp
qed

lemma write_slot_effect:
  "\<exists>ys c b m. fst (write_slot lim G s) =
     s\<lparr>fout := \<lparr>contents = contents (fout s) @ ys, calls = c\<rparr>,
       stdout := stdout s @ (if snd (write_slot lim G s) then [msg_cant_write @ [CHR 0x0A]] else []),
       bfi3 := b, mode := m\<rparr>"
proof (cases "CoderType G = 0")
  case True
  then show ?thesis using write_TETRA_effect [of lim s] by (simp add: write_slot_def)
next
  case False
  then show ?thesis using write_AMR_effect [of lim G s] by (simp add: write_slot_def)
qed

lemma write_slot_keeps:
  "Loop_counter (fst (write_slot lim G s)) = Loop_counter s"
  "Frame_stealing (fst (write_slot lim G s)) = Frame_stealing s"
  "bfi1 (fst (write_slot lim G s)) = bfi1 s"
  "bfi2 (fst (write_slot lim G s)) = bfi2 s"
  "Reordered_array (fst (write_slot lim G s)) = Reordered_array s"
  "first_pass (fst (write_slot lim G s)) = first_pass s"
proof -
  from write_slot_effect [of lim G s] obtain ys c b m where
    "fst (write_slot lim G s) =
       s\<lparr>fout := \<lparr>contents = contents (fout s) @ ys, calls = c\<rparr>,
         stdout := stdout s @ (if snd (write_slot lim G s) then [msg_cant_write @ [CHR 0x0A]] else []),
         bfi3 := b, mode := m\<rparr>"
    by blast
  then show "Loop_counter (fst (write_slot lim G s)) = Loop_counter s"
    "Frame_stealing (fst (write_slot lim G s)) = Frame_stealing s"
    "bfi1 (fst (write_slot lim G s)) = bfi1 s"
    "bfi2 (fst (write_slot lim G s)) = bfi2 s"
    "Reordered_array (fst (write_slot lim G s)) = Reordered_array s"
    "first_pass (fst (write_slot lim G s)) = first_pass s"
    by simp_all
qed

lemma write_slot_stdout:
  "stdout (fst (write_slot lim G s)) =
     stdout s @ (if snd (write_slot lim G s) then [msg_cant_write @ [CHR 0x0A]] else [])"
  using write_slot_effect [of lim G s] by auto

text \<open>
  The slot record when every write is complete, and its first word when the first one is.
\<close>

lemma write_TETRA_full:
  assumes "\<forall>i<4. 137 \<le> lim (calls (fout s) + i)"
  shows "write_TETRA lim s =
     (s\<lparr>fout := \<lparr>contents = contents (fout s) @ [bfi1 s] @ items (Reordered_array s) 0 137 @
                    [bfi2 s] @ items (Reordered_array s) 137 137,
                  calls = calls (fout s) + 4\<rparr>\<rparr>, False)"
proof -
  have a: "Suc 0 \<le> lim (calls (fout s))" "137 \<le> lim (Suc (calls (fout s)))"
    "Suc 0 \<le> lim (Suc (Suc (calls (fout s))))" "137 \<le> lim (Suc (Suc (Suc (calls (fout s)))))"
    using assms[rule_format, of 0] assms[rule_format, of 1] assms[rule_format, of 2] assms[rule_format, of 3]
    by (simp_all add: eval_nat_numeral)
  show ?thesis
    by (simp add: write_TETRA_def and_then_def checked_fwrite_full a items_single)
qed

lemma write_TETRA_first:
  assumes "1 \<le> lim (calls (fout s))"
  shows "\<exists>rest. contents (fout (fst (write_TETRA lim s))) = contents (fout s) @ bfi1 s # rest"
proof -
  let ?t = "s\<lparr>fout := \<lparr>contents = contents (fout s) @ [bfi1 s],
                        calls = Suc (calls (fout s))\<rparr>\<rparr>"
  let ?g = "\<lambda>s. and_then (checked_fwrite lim (Reordered_array s) 0 137 s) (\<lambda>s.
     and_then (checked_fwrite lim [bfi2 s] 0 1 s) (\<lambda>s.
     checked_fwrite lim (Reordered_array s) 137 137 s))"
  have 1: "checked_fwrite lim [bfi1 s] 0 1 s = (?t, False)"
    using assms by (simp add: checked_fwrite_full items_def)
  have "\<exists>ys c b m. fst (?g ?t) =
     ?t\<lparr>fout := \<lparr>contents = contents (fout ?t) @ ys, calls = c\<rparr>,
       stdout := stdout ?t @ (if snd (?g ?t) then [msg_cant_write @ [CHR 0x0A]] else []),
       bfi3 := b, mode := m\<rparr>"
    by (intro and_then_effect checked_fwrite_effect)
  then obtain ys c b m where 2: "fst (?g ?t) =
     ?t\<lparr>fout := \<lparr>contents = contents (fout ?t) @ ys, calls = c\<rparr>,
       stdout := stdout ?t @ (if snd (?g ?t) then [msg_cant_write @ [CHR 0x0A]] else []),
       bfi3 := b, mode := m\<rparr>"
    by blast
  have 3: "contents (fout (fst (?g ?t))) = contents (fout s) @ bfi1 s # ys"
    by (subst 2) simp
  have "write_TETRA lim s = ?g ?t"
    by (simp only: write_TETRA_def 1 and_then_def snd_conv fst_conv if_False)
  with 3 show ?thesis by (simp only: exI [of _ ys])
qed

lemma length_AMR_record: "0 \<le> L \<Longrightarrow> L \<le> 244 \<Longrightarrow> length (AMR_record b arr off L m) = 250"
  by (simp add: AMR_record_def length_items)

lemma AMR_record_hd: "AMR_record b arr off L m ! 0 = (if b \<noteq> 0 then 3 else 0)"
  by (simp add: AMR_record_def)

lemma write_AMR_frame_full:
  assumes L: "0 \<le> Length_vocoder_frame G" "Length_vocoder_frame G \<le> 244"
    and lim: "\<forall>i<5. 244 \<le> lim (calls (fout s) + i)"
  shows "write_AMR_frame lim G b off s =
     (s\<lparr>bfi3 := (if b s \<noteq> 0 then 3 else 0),
        fout := \<lparr>contents = contents (fout s) @ [if b s \<noteq> 0 then 3 else 0] @
                    items (Reordered_array s) off (nat (Length_vocoder_frame G)) @
                    replicate (nat (244 - Length_vocoder_frame G)) 0 @ [mode s] @ replicate 4 0,
                  calls = calls (fout s) + 5\<rparr>\<rparr>, False)"
proof -
  have sz: "size_t (Length_vocoder_frame G) = nat (Length_vocoder_frame G)"
    "size_t (244 - Length_vocoder_frame G) = nat (244 - Length_vocoder_frame G)"
    using L by (simp_all add: size_t_def)
  have a: "Suc 0 \<le> lim (calls (fout s))"
    "nat (Length_vocoder_frame G) \<le> lim (Suc (calls (fout s)))"
    "nat (244 - Length_vocoder_frame G) \<le> lim (Suc (Suc (calls (fout s))))"
    "Suc 0 \<le> lim (Suc (Suc (Suc (calls (fout s)))))"
    "4 \<le> lim (Suc (Suc (Suc (Suc (calls (fout s))))))"
    using L lim[rule_format, of 0] lim[rule_format, of 1] lim[rule_format, of 2]
      lim[rule_format, of 3] lim[rule_format, of 4]
    by (simp_all add: eval_nat_numeral)
  have z1: "items Zeros 0 (nat (244 - Length_vocoder_frame G)) = replicate (nat (244 - Length_vocoder_frame G)) 0"
    using L by (intro items_Zeros) simp
  have z2: "items Zeros 0 4 = replicate 4 0" by (intro items_Zeros) simp
  show ?thesis
    by (simp add: write_AMR_frame_def and_then_def checked_fwrite_full plain_fwrite_full a sz
        items_single z1 z2 Let_def)
qed

lemma write_AMR_frame_full_fields:
  assumes L: "0 \<le> Length_vocoder_frame G" "Length_vocoder_frame G \<le> 244"
    and lim: "\<forall>i<5. 244 \<le> lim (calls (fout s) + i)"
  shows "\<not> snd (write_AMR_frame lim G b off s)"
    and "contents (fout (fst (write_AMR_frame lim G b off s))) =
          contents (fout s) @
          AMR_record (b s) (Reordered_array s) off (Length_vocoder_frame G) (mode s)"
    and "calls (fout (fst (write_AMR_frame lim G b off s))) = calls (fout s) + 5"
    and "bfi1 (fst (write_AMR_frame lim G b off s)) = bfi1 s"
    and "bfi2 (fst (write_AMR_frame lim G b off s)) = bfi2 s"
    and "mode (fst (write_AMR_frame lim G b off s)) = mode s"
    and "Reordered_array (fst (write_AMR_frame lim G b off s)) = Reordered_array s"
  by (simp_all add: write_AMR_frame_full [OF L lim] AMR_record_def)

lemma write_AMR_full:
  assumes L: "0 \<le> Length_vocoder_frame G" "Length_vocoder_frame G \<le> 244"
    and lim: "\<forall>i<15. 244 \<le> lim (calls (fout s) + i)"
  shows "\<not> snd (write_AMR lim G s)"
    and "contents (fout (fst (write_AMR lim G s))) =
           contents (fout s) @
           AMR_record (bfi1 s) (Reordered_array s) 0 (Length_vocoder_frame G)
             (word_of_int (CoderType G - 1)) @
           AMR_record (bfi1 s) (Reordered_array s) (nat (Length_vocoder_frame G))
             (Length_vocoder_frame G) (word_of_int (CoderType G - 1)) @
           AMR_record (bfi2 s) (Reordered_array s) (nat (2 * Length_vocoder_frame G))
             (Length_vocoder_frame G) (word_of_int (CoderType G - 1))"
proof -
  define m :: Word16 where "m = word_of_int (CoderType G - 1)"
  let ?s0 = "s\<lparr>mode := m\<rparr>"
  let ?r1 = "write_AMR_frame lim G bfi1 0 ?s0"
  let ?r2 = "write_AMR_frame lim G bfi1 (nat (Length_vocoder_frame G)) (fst ?r1)"
  let ?r3 = "write_AMR_frame lim G bfi2 (nat (2 * Length_vocoder_frame G)) (fst ?r2)"
  have l1: "\<forall>i<5. 244 \<le> lim (calls (fout ?s0) + i)"
    using lim by simp
  note f1 = write_AMR_frame_full_fields [OF L l1, of bfi1 0]
  have l2: "\<forall>i<5. 244 \<le> lim (calls (fout (fst ?r1)) + i)"
  proof (intro allI impI)
    fix i :: nat assume "i < 5"
    then have "5 + i < 15" by simp
    from lim [rule_format, OF this] show "244 \<le> lim (calls (fout (fst ?r1)) + i)"
      by (simp add: f1(3) add.assoc)
  qed
  note f2 = write_AMR_frame_full_fields [OF L l2, of bfi1 "nat (Length_vocoder_frame G)"]
  have l3: "\<forall>i<5. 244 \<le> lim (calls (fout (fst ?r2)) + i)"
  proof (intro allI impI)
    fix i :: nat assume "i < 5"
    then have "10 + i < 15" by simp
    from lim [rule_format, OF this] show "244 \<le> lim (calls (fout (fst ?r2)) + i)"
      by (simp add: f1(3) f2(3) add.assoc)
  qed
  note f3 = write_AMR_frame_full_fields [OF L l3, of bfi2 "nat (2 * Length_vocoder_frame G)"]
  have "write_AMR lim G s =
      and_then ?r1 (\<lambda>s. and_then (write_AMR_frame lim G bfi1 (nat (Length_vocoder_frame G)) s)
        (\<lambda>s. write_AMR_frame lim G bfi2 (nat (2 * Length_vocoder_frame G)) s))"
    unfolding write_AMR_def Let_def m_def ..
  then have eq: "write_AMR lim G s = ?r3"
    using f1(1) f2(1) by (simp add: and_then_def)
  show "\<not> snd (write_AMR lim G s)"
    by (simp only: eq f3(1) not_False_eq_True)
  have "contents (fout (fst (write_AMR lim G s))) =
           contents (fout s) @
           AMR_record (bfi1 s) (Reordered_array s) 0 (Length_vocoder_frame G) m @
           AMR_record (bfi1 s) (Reordered_array s) (nat (Length_vocoder_frame G))
             (Length_vocoder_frame G) m @
           AMR_record (bfi2 s) (Reordered_array s) (nat (2 * Length_vocoder_frame G))
             (Length_vocoder_frame G) m"
    by (simp only: eq f3 f2 f1) simp
  then show "contents (fout (fst (write_AMR lim G s))) =
           contents (fout s) @
           AMR_record (bfi1 s) (Reordered_array s) 0 (Length_vocoder_frame G)
             (word_of_int (CoderType G - 1)) @
           AMR_record (bfi1 s) (Reordered_array s) (nat (Length_vocoder_frame G))
             (Length_vocoder_frame G) (word_of_int (CoderType G - 1)) @
           AMR_record (bfi2 s) (Reordered_array s) (nat (2 * Length_vocoder_frame G))
             (Length_vocoder_frame G) (word_of_int (CoderType G - 1))"
    unfolding m_def .
qed

text \<open>
  The last write of a slot, one whose result the code drops, takes nothing: the loop
  goes on.
\<close>

lemma write_AMR_frame_last_short:
  assumes L: "0 \<le> Length_vocoder_frame G" "Length_vocoder_frame G \<le> 244"
    and lim: "\<forall>i<4. 244 \<le> lim (calls (fout s) + i)"
    and full: "lim (calls (fout s) + 4) = 0"
  shows "\<not> snd (write_AMR_frame lim G b off s)"
    and "length (contents (fout (fst (write_AMR_frame lim G b off s)))) =
           length (contents (fout s)) + 246"
proof -
  have sz: "size_t (Length_vocoder_frame G) = nat (Length_vocoder_frame G)"
    "size_t (244 - Length_vocoder_frame G) = nat (244 - Length_vocoder_frame G)"
    using L by (simp_all add: size_t_def)
  have a: "Suc 0 \<le> lim (calls (fout s))"
    "nat (Length_vocoder_frame G) \<le> lim (Suc (calls (fout s)))"
    "nat (244 - Length_vocoder_frame G) \<le> lim (Suc (Suc (calls (fout s))))"
    "Suc 0 \<le> lim (Suc (Suc (Suc (calls (fout s)))))"
    using L lim[rule_format, of 0] lim[rule_format, of 1] lim[rule_format, of 2]
      lim[rule_format, of 3]
    by (simp_all add: eval_nat_numeral)
  have z: "lim (Suc (Suc (Suc (Suc (calls (fout s)))))) = 0"
    using full by (simp add: eval_nat_numeral)
  have eq: "write_AMR_frame lim G b off s =
     (plain_fwrite lim Zeros 4
       (s\<lparr>bfi3 := (if b s \<noteq> 0 then 3 else 0),
          fout := \<lparr>contents = contents (fout s) @ [if b s \<noteq> 0 then 3 else 0] @
                    items (Reordered_array s) off (nat (Length_vocoder_frame G)) @
                    items Zeros 0 (nat (244 - Length_vocoder_frame G)) @ [mode s],
                  calls = Suc (Suc (Suc (Suc (calls (fout s)))))\<rparr>\<rparr>), False)"
    by (simp add: write_AMR_frame_def and_then_def checked_fwrite_full plain_fwrite_full a sz
        items_single Let_def)
  show "\<not> snd (write_AMR_frame lim G b off s)" by (simp add: eq)
  show "length (contents (fout (fst (write_AMR_frame lim G b off s)))) =
           length (contents (fout s)) + 246"
    using L by (simp add: eq plain_fwrite_eq z length_items eval_nat_numeral)
qed

lemma write_AMR_last_short:
  assumes L: "0 \<le> Length_vocoder_frame G" "Length_vocoder_frame G \<le> 244"
    and lim: "\<forall>i<14. 244 \<le> lim (calls (fout s) + i)"
    and full: "lim (calls (fout s) + 14) = 0"
  shows "\<not> snd (write_AMR lim G s)"
    and "length (contents (fout (fst (write_AMR lim G s)))) = length (contents (fout s)) + 746"
proof -
  define m :: Word16 where "m = word_of_int (CoderType G - 1)"
  let ?s0 = "s\<lparr>mode := m\<rparr>"
  let ?r1 = "write_AMR_frame lim G bfi1 0 ?s0"
  let ?r2 = "write_AMR_frame lim G bfi1 (nat (Length_vocoder_frame G)) (fst ?r1)"
  let ?r3 = "write_AMR_frame lim G bfi2 (nat (2 * Length_vocoder_frame G)) (fst ?r2)"
  have l1: "\<forall>i<5. 244 \<le> lim (calls (fout ?s0) + i)"
    using lim by simp
  note f1 = write_AMR_frame_full_fields [OF L l1, of bfi1 0]
  have l2: "\<forall>i<5. 244 \<le> lim (calls (fout (fst ?r1)) + i)"
  proof (intro allI impI)
    fix i :: nat assume "i < 5"
    then have "5 + i < 14" by simp
    from lim [rule_format, OF this] show "244 \<le> lim (calls (fout (fst ?r1)) + i)"
      by (simp add: f1(3) add.assoc)
  qed
  note f2 = write_AMR_frame_full_fields [OF L l2, of bfi1 "nat (Length_vocoder_frame G)"]
  have l3: "\<forall>i<4. 244 \<le> lim (calls (fout (fst ?r2)) + i)"
  proof (intro allI impI)
    fix i :: nat assume "i < 4"
    then have "10 + i < 14" by simp
    from lim [rule_format, OF this] show "244 \<le> lim (calls (fout (fst ?r2)) + i)"
      by (simp add: f1(3) f2(3) add.assoc)
  qed
  have z3: "lim (calls (fout (fst ?r2)) + 4) = 0"
    using full by (simp add: f1(3) f2(3) add.assoc)
  note f3 = write_AMR_frame_last_short [OF L l3 z3, of bfi2 "nat (2 * Length_vocoder_frame G)"]
  have "write_AMR lim G s =
      and_then ?r1 (\<lambda>s. and_then (write_AMR_frame lim G bfi1 (nat (Length_vocoder_frame G)) s)
        (\<lambda>s. write_AMR_frame lim G bfi2 (nat (2 * Length_vocoder_frame G)) s))"
    unfolding write_AMR_def Let_def m_def ..
  then have eq: "write_AMR lim G s = ?r3"
    using f1(1) f2(1) by (simp add: and_then_def)
  show "\<not> snd (write_AMR lim G s)"
    by (simp only: eq f3(1) not_False_eq_True)
  show "length (contents (fout (fst (write_AMR lim G s)))) = length (contents (fout s)) + 746"
    using L by (simp only: eq f3 f2 f1) (simp add: length_AMR_record)
qed

section \<open>The loop counter\<close>

lemma sint_of_nat_32: "k < 2 ^ 31 \<Longrightarrow> sint (of_nat k :: Word32) = int k"
proof -
  assume k: "k < 2 ^ 31"
  have "sint (word_of_int (int k) :: Word32) = signed_take_bit (LENGTH(32) - 1) (int k)"
    by (rule sint_sbintrunc')
  also have "\<dots> = int k"
    using k by (simp add: signed_take_bit_int_eq_self_iff)
  finally show ?thesis by simp
qed

lemma sint_Suc_32: "k + 1 < 2 ^ 31 \<Longrightarrow> sint (of_nat k + 1 :: Word32) = int k + 1"
proof -
  assume k: "k + 1 < 2 ^ 31"
  have "of_nat k + 1 = (of_nat (Suc k) :: Word32)" by simp
  then have "sint (of_nat k + 1 :: Word32) = sint (of_nat (Suc k) :: Word32)" by (simp only:)
  also have "\<dots> = int (Suc k)" using k by (intro sint_of_nat_32) simp
  finally show ?thesis by simp
qed

lemma smod_10_nat: "(int k smod 10 = 2) = (k mod 10 = 2)"
proof -
  have 1: "int k smod 10 = int k mod 10" by (rule smod_mod_positive) simp_all
  have 2: "int k mod 10 = int (k mod 10)" by (simp add: zmod_int)
  have 3: "(int (k mod 10) = 2) = (k mod 10 = 2)"
    using of_nat_eq_iff [of "k mod 10" 2, where ?'a = int] by simp
  show ?thesis by (simp only: 1 2 3)
qed

section \<open>Channel decoding and the indicators\<close>

lemma set_stealing_keeps:
  "Loop_counter (set_stealing G s) = Loop_counter s"
  "stdout (set_stealing G s) = stdout s"
  "fout (set_stealing G s) = fout s"
  by (simp_all add: set_stealing_def)

lemma desinterleave_keeps:
  "Loop_counter (desinterleave E slot s) = Loop_counter s"
  "Frame_stealing (desinterleave E slot s) = Frame_stealing s"
  "stdout (desinterleave E slot s) = stdout s"
  "fout (desinterleave E slot s) = fout s"
  by (simp_all add: desinterleave_def)

lemma call_Channel_Decoding_keeps:
  "bfi1 (snd (call_Channel_Decoding E s)) = bfi1 s"
  "bfi2 (snd (call_Channel_Decoding E s)) = bfi2 s"
  "Loop_counter (snd (call_Channel_Decoding E s)) = Loop_counter s"
  "Frame_stealing (snd (call_Channel_Decoding E s)) = Frame_stealing s"
  "fout (snd (call_Channel_Decoding E s)) = fout s"
  "stdout (snd (call_Channel_Decoding E s)) = stdout s"
  by (simp_all add: call_Channel_Decoding_def split: prod.split)

lemma call_Channel_Decoding_verdict:
  "fst (call_Channel_Decoding E (s\<lparr>bfi1 := x\<rparr>)) = fst (call_Channel_Decoding E s)"
  "fst (call_Channel_Decoding E (s\<lparr>bfi2 := x\<rparr>)) = fst (call_Channel_Decoding E s)"
  "fst (call_Channel_Decoding E (s\<lparr>stdout := y\<rparr>)) = fst (call_Channel_Decoding E s)"
  by (simp_all add: call_Channel_Decoding_def split: prod.split)

lemma decode_TETRA_fields:
  "bfi2 (decode_TETRA E s) = fst (call_Channel_Decoding E s)"
  "bfi1 (decode_TETRA E s) =
     (if Frame_stealing s = 0 \<and> fst (call_Channel_Decoding E s) = 1 then 1 else Frame_stealing s)"
  "Loop_counter (decode_TETRA E s) = Loop_counter s"
  "Frame_stealing (decode_TETRA E s) = Frame_stealing s"
  "fout (decode_TETRA E s) = fout s"
  "stdout (decode_TETRA E s) =
     stdout s @ (if Frame_stealing s \<noteq> 0 then [msg_stolen (Loop_counter s + 1)] else []) @
       (if fst (call_Channel_Decoding E s) \<noteq> 0 then [msg_bfi (Loop_counter s + 1)] else [])"
  by (simp_all add: decode_TETRA_def report_stolen_def report_bfi_def printf_def Let_def
      case_prod_beta call_Channel_Decoding_keeps call_Channel_Decoding_verdict)

lemma decode_AMR_fields:
  "bfi1 (decode_AMR E s) = fst (call_Channel_Decoding E s)"
  "bfi2 (decode_AMR E s) =
     (if Frame_stealing s = 0 \<and> fst (call_Channel_Decoding E s) = 1 then 1 else Frame_stealing s)"
  "Loop_counter (decode_AMR E s) = Loop_counter s"
  "Frame_stealing (decode_AMR E s) = Frame_stealing s"
  "fout (decode_AMR E s) = fout s"
  "stdout (decode_AMR E s) =
     stdout s @ (if Frame_stealing s \<noteq> 0 then [msg_stolen (Loop_counter s + 1)] else []) @
       (if fst (call_Channel_Decoding E s) \<noteq> 0 then [msg_bfi (Loop_counter s + 1)] else [])"
  by (simp_all add: decode_AMR_def report_stolen_def report_bfi_def printf_def Let_def
      case_prod_beta call_Channel_Decoding_keeps call_Channel_Decoding_verdict)

lemma channel_decode_keeps:
  "Loop_counter (channel_decode E G s) = Loop_counter s + 1"
  "Frame_stealing (channel_decode E G s) = Frame_stealing s"
  "fout (channel_decode E G s) = fout s"
  "stdout (channel_decode E G s) =
     stdout s @ (if Frame_stealing s \<noteq> 0 then [msg_stolen (Loop_counter s + 1)] else []) @
       (if fst (call_Channel_Decoding E s) \<noteq> 0 then [msg_bfi (Loop_counter s + 1)] else [])"
  by (simp_all add: channel_decode_def Let_def decode_TETRA_fields decode_AMR_fields)

lemma channel_decode_bfi:
  "CoderType G = 0 \<Longrightarrow> bfi2 (channel_decode E G s) = fst (call_Channel_Decoding E s)"
  "CoderType G = 0 \<Longrightarrow> bfi1 (channel_decode E G s) =
     (if Frame_stealing s = 0 \<and> fst (call_Channel_Decoding E s) = 1 then 1 else Frame_stealing s)"
  "CoderType G \<noteq> 0 \<Longrightarrow> bfi1 (channel_decode E G s) = fst (call_Channel_Decoding E s)"
  "CoderType G \<noteq> 0 \<Longrightarrow> bfi2 (channel_decode E G s) =
     (if Frame_stealing s = 0 \<and> fst (call_Channel_Decoding E s) = 1 then 1 else Frame_stealing s)"
  by (simp_all add: channel_decode_def Let_def decode_TETRA_fields decode_AMR_fields)

section \<open>The loop\<close>

lemma loop_body_keeps:
  "Loop_counter (fst (loop_body E lim G slot s)) = Loop_counter s + 1"
  "Frame_stealing (fst (loop_body E lim G slot s)) = Frame_stealing (set_stealing G s)"
  by (simp_all add: loop_body_def write_slot_keeps channel_decode_keeps desinterleave_keeps
      set_stealing_keeps)

lemma loop_body_fout:
  "fout (channel_decode E G (desinterleave E slot (set_stealing G s))) = fout s"
  by (simp add: channel_decode_keeps desinterleave_keeps set_stealing_keeps)

lemma loop_body_bfi:
  "CoderType G = 0 \<Longrightarrow>
     bfi2 (fst (loop_body E lim G slot s)) =
       fst (call_Channel_Decoding E (desinterleave E slot (set_stealing G s)))"
  "CoderType G = 0 \<Longrightarrow>
     bfi1 (fst (loop_body E lim G slot s)) =
       (if Frame_stealing (set_stealing G s) = 0 \<and>
           fst (call_Channel_Decoding E (desinterleave E slot (set_stealing G s))) = 1
        then 1 else Frame_stealing (set_stealing G s))"
  "CoderType G \<noteq> 0 \<Longrightarrow>
     bfi1 (fst (loop_body E lim G slot s)) =
       fst (call_Channel_Decoding E (desinterleave E slot (set_stealing G s)))"
  "CoderType G \<noteq> 0 \<Longrightarrow>
     bfi2 (fst (loop_body E lim G slot s)) =
       (if Frame_stealing (set_stealing G s) = 0 \<and>
           fst (call_Channel_Decoding E (desinterleave E slot (set_stealing G s))) = 1
        then 1 else Frame_stealing (set_stealing G s))"
  by (simp_all add: loop_body_def write_slot_keeps channel_decode_bfi desinterleave_keeps)

lemma loop_body_verdict:
  "(if CoderType G = 0 then bfi2 (fst (loop_body E lim G slot s))
    else bfi1 (fst (loop_body E lim G slot s))) =
   fst (call_Channel_Decoding E (desinterleave E slot (set_stealing G s)))"
  by (simp add: loop_body_bfi)

lemma loop_body_stdout:
  "stdout (fst (loop_body E lim G slot s)) =
     stdout s @
     (if Frame_stealing (set_stealing G s) \<noteq> 0 then [msg_stolen (Loop_counter s + 1)] else []) @
     (if fst (call_Channel_Decoding E (desinterleave E slot (set_stealing G s))) \<noteq> 0
      then [msg_bfi (Loop_counter s + 1)] else []) @
     (if snd (loop_body E lim G slot s) then [msg_cant_write @ [CHR 0x0A]] else [])"
  by (simp add: loop_body_def write_slot_stdout channel_decode_keeps desinterleave_keeps
      set_stealing_keeps)

text \<open>
  The loop of \<open>main\<close> is \<open>run_slots\<close> followed by the handling of the end of the input.
\<close>

lemma main_loop_run_slots:
  "main_loop E lim G xs s =
     (if snd (run_slots E lim G xs s) then fst (run_slots E lim G xs s)
      else puts ''cdecoder: reached end of input_file''
             (set_stealing G (fst (run_slots E lim G xs s))))"
  by (induction xs arbitrary: s) (auto split: prod.splits)

lemma run_slots_append:
  "run_slots E lim G (xs @ ys) s =
     (if snd (run_slots E lim G xs s) then run_slots E lim G xs s
      else run_slots E lim G ys (fst (run_slots E lim G xs s)))"
  by (induction xs arbitrary: s) (auto split: prod.splits)

lemma run_slots_Loop_counter:
  "\<not> snd (run_slots E lim G xs s) \<Longrightarrow>
   Loop_counter (fst (run_slots E lim G xs s)) = Loop_counter s + of_nat (length xs)"
proof (induction xs arbitrary: s)
  case Nil
  then show ?case by simp
next
  case (Cons x xs)
  obtain t b where tb: "loop_body E lim G x s = (t, b)" by (cases "loop_body E lim G x s")
  with Cons.prems have nb: "\<not> b" by (auto split: if_splits)
  with Cons.prems tb have "\<not> snd (run_slots E lim G xs t)" by simp
  then have "Loop_counter (fst (run_slots E lim G xs t)) = Loop_counter t + of_nat (length xs)"
    by (rule Cons.IH)
  moreover have "Loop_counter t = Loop_counter s + 1"
    using loop_body_keeps(1) [of E lim G x s] tb by simp
  ultimately show ?case using tb nb by simp
qed

lemma run_slots_no_stealing:
  "FRAME_STEALING G = 0 \<Longrightarrow>
   Frame_stealing (fst (run_slots E lim G xs s)) = Frame_stealing s"
proof (induction xs arbitrary: s)
  case Nil
  then show ?case by simp
next
  case (Cons x xs)
  obtain t b where tb: "loop_body E lim G x s = (t, b)" by (cases "loop_body E lim G x s")
  have "Frame_stealing t = Frame_stealing s"
    using loop_body_keeps(2) [of E lim G x s] tb Cons.prems by (simp add: set_stealing_def)
  then show ?case using tb Cons.IH [OF Cons.prems, of t] by simp
qed

subsection \<open>One turn of the loop with every write complete\<close>

lemma loop_body_TETRA_full:
  assumes G: "CoderType G = 0" and lim: "\<forall>i<4. 137 \<le> lim (calls (fout s) + i)"
  shows "\<not> snd (loop_body E lim G slot s)"
    and "contents (fout (fst (loop_body E lim G slot s))) =
           contents (fout s) @
           [bfi1 (fst (loop_body E lim G slot s))] @
           items (Reordered_array (fst (loop_body E lim G slot s))) 0 137 @
           [bfi2 (fst (loop_body E lim G slot s))] @
           items (Reordered_array (fst (loop_body E lim G slot s))) 137 137"
proof -
  let ?u = "channel_decode E G (desinterleave E slot (set_stealing G s))"
  have l: "\<forall>i<4. 137 \<le> lim (calls (fout ?u) + i)"
    using lim by (simp only: loop_body_fout)
  have eq: "loop_body E lim G slot s = write_TETRA lim ?u"
    by (simp add: loop_body_def write_slot_def G)
  show "\<not> snd (loop_body E lim G slot s)"
    by (simp add: eq write_TETRA_full [OF l])
  show "contents (fout (fst (loop_body E lim G slot s))) =
           contents (fout s) @
           [bfi1 (fst (loop_body E lim G slot s))] @
           items (Reordered_array (fst (loop_body E lim G slot s))) 0 137 @
           [bfi2 (fst (loop_body E lim G slot s))] @
           items (Reordered_array (fst (loop_body E lim G slot s))) 137 137"
    by (simp add: eq write_TETRA_full [OF l] loop_body_fout)
qed

lemma loop_body_AMR_full:
  assumes G: "CoderType G \<noteq> 0"
    and L: "0 \<le> Length_vocoder_frame G" "Length_vocoder_frame G \<le> 244"
    and lim: "\<forall>i<15. 244 \<le> lim (calls (fout s) + i)"
  shows "\<not> snd (loop_body E lim G slot s)"
    and "contents (fout (fst (loop_body E lim G slot s))) =
           contents (fout s) @
           AMR_record (bfi1 (fst (loop_body E lim G slot s)))
             (Reordered_array (fst (loop_body E lim G slot s))) 0
             (Length_vocoder_frame G) (word_of_int (CoderType G - 1)) @
           AMR_record (bfi1 (fst (loop_body E lim G slot s)))
             (Reordered_array (fst (loop_body E lim G slot s))) (nat (Length_vocoder_frame G))
             (Length_vocoder_frame G) (word_of_int (CoderType G - 1)) @
           AMR_record (bfi2 (fst (loop_body E lim G slot s)))
             (Reordered_array (fst (loop_body E lim G slot s))) (nat (2 * Length_vocoder_frame G))
             (Length_vocoder_frame G) (word_of_int (CoderType G - 1))"
proof -
  let ?u = "channel_decode E G (desinterleave E slot (set_stealing G s))"
  have l: "\<forall>i<15. 244 \<le> lim (calls (fout ?u) + i)"
    using lim by (simp only: loop_body_fout)
  have eq: "loop_body E lim G slot s = write_slot lim G ?u"
    by (simp add: loop_body_def)
  have eq2: "write_slot lim G ?u = write_AMR lim G ?u"
    by (simp add: write_slot_def G)
  show "\<not> snd (loop_body E lim G slot s)"
    by (simp only: eq eq2 write_AMR_full(1) [OF L l] not_False_eq_True)
  have k: "bfi1 (fst (write_slot lim G ?u)) = bfi1 ?u" "bfi2 (fst (write_slot lim G ?u)) = bfi2 ?u"
    "Reordered_array (fst (write_slot lim G ?u)) = Reordered_array ?u"
    by (rule write_slot_keeps)+
  show "contents (fout (fst (loop_body E lim G slot s))) =
           contents (fout s) @
           AMR_record (bfi1 (fst (loop_body E lim G slot s)))
             (Reordered_array (fst (loop_body E lim G slot s))) 0
             (Length_vocoder_frame G) (word_of_int (CoderType G - 1)) @
           AMR_record (bfi1 (fst (loop_body E lim G slot s)))
             (Reordered_array (fst (loop_body E lim G slot s))) (nat (Length_vocoder_frame G))
             (Length_vocoder_frame G) (word_of_int (CoderType G - 1)) @
           AMR_record (bfi2 (fst (loop_body E lim G slot s)))
             (Reordered_array (fst (loop_body E lim G slot s))) (nat (2 * Length_vocoder_frame G))
             (Length_vocoder_frame G) (word_of_int (CoderType G - 1))"
    unfolding eq k unfolding eq2 write_AMR_full(2) [OF L l] loop_body_fout ..
qed

lemma loop_body_AMR_headers:
  assumes G: "CoderType G \<noteq> 0"
    and L: "0 \<le> Length_vocoder_frame G" "Length_vocoder_frame G \<le> 244"
    and lim: "\<forall>i<15. 244 \<le> lim (calls (fout s) + i)"
  shows "contents (fout (fst (loop_body E lim G slot s))) ! length (contents (fout s)) =
           (if bfi1 (fst (loop_body E lim G slot s)) \<noteq> 0 then 3 else 0)"
    and "contents (fout (fst (loop_body E lim G slot s))) ! (length (contents (fout s)) + 250) =
           (if bfi1 (fst (loop_body E lim G slot s)) \<noteq> 0 then 3 else 0)"
    and "contents (fout (fst (loop_body E lim G slot s))) ! (length (contents (fout s)) + 500) =
           (if bfi2 (fst (loop_body E lim G slot s)) \<noteq> 0 then 3 else 0)"
proof -
  note c = loop_body_AMR_full(2) [OF G L lim, of E slot]
  note len = length_AMR_record [OF L]
  show "contents (fout (fst (loop_body E lim G slot s))) ! length (contents (fout s)) =
           (if bfi1 (fst (loop_body E lim G slot s)) \<noteq> 0 then 3 else 0)"
    by (subst c) (simp add: nth_append len AMR_record_hd)
  show "contents (fout (fst (loop_body E lim G slot s))) ! (length (contents (fout s)) + 250) =
           (if bfi1 (fst (loop_body E lim G slot s)) \<noteq> 0 then 3 else 0)"
    by (subst c) (simp add: nth_append len AMR_record_hd)
  show "contents (fout (fst (loop_body E lim G slot s))) ! (length (contents (fout s)) + 500) =
           (if bfi2 (fst (loop_body E lim G slot s)) \<noteq> 0 then 3 else 0)"
    by (subst c) (simp add: nth_append len AMR_record_hd)
qed

lemma loop_body_AMR_last_short:
  assumes G: "CoderType G \<noteq> 0"
    and L: "0 \<le> Length_vocoder_frame G" "Length_vocoder_frame G \<le> 244"
    and lim: "\<forall>i<14. 244 \<le> lim (calls (fout s) + i)"
    and full: "lim (calls (fout s) + 14) = 0"
  shows "\<not> snd (loop_body E lim G slot s)"
    and "length (contents (fout (fst (loop_body E lim G slot s)))) =
           length (contents (fout s)) + 746"
proof -
  let ?u = "channel_decode E G (desinterleave E slot (set_stealing G s))"
  have l: "\<forall>i<14. 244 \<le> lim (calls (fout ?u) + i)"
    using lim by (simp only: loop_body_fout)
  have z: "lim (calls (fout ?u) + 14) = 0"
    using full by (simp only: loop_body_fout)
  have eq: "loop_body E lim G slot s = write_AMR lim G ?u"
    by (simp add: loop_body_def write_slot_def G)
  show "\<not> snd (loop_body E lim G slot s)"
    by (simp only: eq write_AMR_last_short(1) [OF L l z] not_False_eq_True)
  show "length (contents (fout (fst (loop_body E lim G slot s)))) =
           length (contents (fout s)) + 746"
    by (simp only: eq write_AMR_last_short(2) [OF L l z] loop_body_fout)
qed

lemma loop_body_no_break:
  assumes lim: "\<forall>i. 244 \<le> lim i"
    and G: "CoderType G = 0 \<or> 0 \<le> Length_vocoder_frame G \<and> Length_vocoder_frame G \<le> 244"
  shows "\<not> snd (loop_body E lim G slot s)"
proof (cases "CoderType G = 0")
  case True
  have "\<forall>i<4. 137 \<le> lim (calls (fout s) + i)"
    using lim by (auto intro: order_trans [of 137 244])
  with True show ?thesis by (rule loop_body_TETRA_full(1))
next
  case False
  with G have L: "0 \<le> Length_vocoder_frame G" "Length_vocoder_frame G \<le> 244" by simp_all
  have "\<forall>i<15. 244 \<le> lim (calls (fout s) + i)" using lim by simp
  with False L show ?thesis by (rule loop_body_AMR_full(1))
qed

lemma run_slots_no_break:
  assumes lim: "\<forall>i. 244 \<le> lim i"
    and G: "CoderType G = 0 \<or> 0 \<le> Length_vocoder_frame G \<and> Length_vocoder_frame G \<le> 244"
  shows "\<not> snd (run_slots E lim G xs s)"
proof (induction xs arbitrary: s)
  case Nil
  show ?case by simp
next
  case (Cons x xs)
  obtain t b where tb: "loop_body E lim G x s = (t, b)" by (cases "loop_body E lim G x s")
  with loop_body_no_break [OF lim G, of E x s] have "\<not> b" by simp
  with tb Cons.IH [of t] show ?case by simp
qed

lemma loop_body_output_length:
  assumes lim: "\<forall>i. 244 \<le> lim i"
  shows "CoderType G = 0 \<Longrightarrow>
           length (contents (fout (fst (loop_body E lim G slot s)))) =
             length (contents (fout s)) + 276"
    and "CoderType G \<noteq> 0 \<Longrightarrow> 0 \<le> Length_vocoder_frame G \<Longrightarrow> Length_vocoder_frame G \<le> 244 \<Longrightarrow>
           length (contents (fout (fst (loop_body E lim G slot s)))) =
             length (contents (fout s)) + 750"
proof -
  have l4: "\<forall>i<4. 137 \<le> lim (calls (fout s) + i)"
    using lim by (auto intro: order_trans [of 137 244])
  have l15: "\<forall>i<15. 244 \<le> lim (calls (fout s) + i)" using lim by simp
  show "length (contents (fout (fst (loop_body E lim G slot s)))) =
      length (contents (fout s)) + 276" if "CoderType G = 0"
    by (subst loop_body_TETRA_full(2) [OF that l4]) (simp add: length_items)
  show "length (contents (fout (fst (loop_body E lim G slot s)))) =
      length (contents (fout s)) + 750"
    if "CoderType G \<noteq> 0" "0 \<le> Length_vocoder_frame G" "Length_vocoder_frame G \<le> 244"
    by (subst loop_body_AMR_full(2) [OF that l15]) (simp add: length_AMR_record that)
qed

text \<open>
  The framing of the whole output: with a device that takes every write, a run over
  \<open>n\<close> slots writes \<open>276 n\<close> words in TETRA mode and \<open>750 n\<close> words in AMR475 mode.
\<close>

lemma run_slots_output_length:
  assumes lim: "\<forall>i. 244 \<le> lim i"
    and G: "CoderType G = 0 \<or> 0 \<le> Length_vocoder_frame G \<and> Length_vocoder_frame G \<le> 244"
  shows "length (contents (fout (fst (run_slots E lim G xs s)))) =
           length (contents (fout s)) + (if CoderType G = 0 then 276 else 750) * length xs"
proof (induction xs arbitrary: s)
  case Nil
  show ?case by simp
next
  case (Cons x xs)
  obtain t b where tb: "loop_body E lim G x s = (t, b)" by (cases "loop_body E lim G x s")
  with loop_body_no_break [OF lim G, of E x s] have nb: "\<not> b" by simp
  have "length (contents (fout t)) =
      length (contents (fout s)) + (if CoderType G = 0 then 276 else 750)"
    using loop_body_output_length [OF lim, of G E x s] G tb by auto
  with tb nb Cons.IH [of t] show ?case by simp
qed

subsection \<open>The stealing schedule\<close>

lemma stealing_schedule:
  assumes s0: "Loop_counter s0 = 0" "Frame_stealing s0 = 0"
    and k: "k \<le> length xs" "k < 2 ^ 31"
    and nb: "\<not> snd (run_slots E lim G (take k xs) s0)"
  shows "Frame_stealing (set_stealing G (fst (run_slots E lim G (take k xs) s0))) =
           (if FRAME_STEALING G \<noteq> 0 \<and> k mod 10 = 2 then 1 else 0)"
proof -
  let ?s = "fst (run_slots E lim G (take k xs) s0)"
  have "Loop_counter ?s = Loop_counter s0 + of_nat (length (take k xs))"
    using nb by (rule run_slots_Loop_counter)
  then have lc: "Loop_counter ?s = of_nat k" using s0 k by simp
  show ?thesis
  proof (cases "FRAME_STEALING G = 0")
    case True
    then have "Frame_stealing ?s = Frame_stealing s0" by (rule run_slots_no_stealing)
    with True s0 show ?thesis by (simp add: set_stealing_def)
  next
    case False
    then show ?thesis
      by (simp add: set_stealing_def lc sint_of_nat_32 [OF k(2)] smod_10_nat)
  qed
qed

lemma startup_globals:
  assumes "startup E argv fin out_ok = Inr (G, slots)"
  shows "(FRAME_STEALING G \<noteq> 0) =
           (length argv = 5 \<and> (\<exists>cs. argv ! 4 = CHR ''S'' # cs))"
    and "CoderType G = 0 \<or> CoderType G = 1"
    and "fin = Some slots"
  using assms
  by (auto simp: startup_def init_params_def Let_def TRUE_def FALSE_def
      split: if_splits option.splits list.splits)

subsection \<open>The sample inputs\<close>

lemma sample_verdict: "fst (call_Channel_Decoding sample_routines s) = 0"
  by (simp add: call_Channel_Decoding_def sample_routines_def)


lemma sample_stealing_2:
  "Frame_stealing (set_stealing sample_TETRA (sample_memory\<lparr>Loop_counter := 2\<rparr>)) = 1"
  "Frame_stealing (set_stealing sample_AMR475 (sample_memory\<lparr>Loop_counter := 2\<rparr>)) = 1"
  by (simp_all add: set_stealing_def sample_TETRA_def sample_AMR475_def TRUE_def)

lemma sample_stealing_0:
  "Frame_stealing (set_stealing sample_TETRA sample_memory) = 0"
  "Frame_stealing (set_stealing sample_AMR475 sample_memory) = 0"
  by (simp_all add: set_stealing_def sample_TETRA_def sample_AMR475_def TRUE_def sample_memory_def)

lemma sample_limits:
  "\<forall>i. 244 \<le> unlimited i"
  "CoderType sample_TETRA = 0 \<or>
     0 \<le> Length_vocoder_frame sample_TETRA \<and> Length_vocoder_frame sample_TETRA \<le> 244"
  "CoderType sample_AMR475 = 0 \<or>
     0 \<le> Length_vocoder_frame sample_AMR475 \<and> Length_vocoder_frame sample_AMR475 \<le> 244"
  by (simp_all add: unlimited_def sample_TETRA_def sample_AMR475_def)

lemma sample_startup:
  "startup sample_routines [''cdecoder'', ''in'', ''out'', ''0'', ''S''] (Some sample_file) True =
     Inr (sample_TETRA, sample_file)"
  "startup sample_routines [''cdecoder'', ''in'', ''out'', ''0'', ''Sx''] (Some sample_file) True =
     Inr (sample_TETRA, sample_file)"
  "startup sample_routines [''cdecoder'', ''in'', ''out'', ''1''] (Some [sample_slot]) True =
     Inr (sample_AMR475\<lparr>FRAME_STEALING := FALSE\<rparr>, [sample_slot])"
  by (simp_all add: startup_def atoi_def isspace_def isdigit_def init_params_def
      sample_routines_def sample_TETRA_def sample_AMR475_def Let_def)

lemma fmt_ld_1: "fmt_ld 1 = ''1''"
  by code_simp

lemma fmt_ld_3: "fmt_ld 3 = ''3''"
  by code_simp

section \<open>The claims\<close>

text \<open>
  The k-th header of an AMR475 slot is not derived from the k-th indicator: on the third
  slot of a run with stealing, where the decoder reports a good frame, \<open>bfi2\<close> is 1 and
  the header of the second speech frame, the word at offset 250, is 0.
\<close>

theorem AMR_second_header_counterexample:
  "bfi2 (fst (loop_body sample_routines unlimited sample_AMR475 sample_slot
     (sample_memory\<lparr>Loop_counter := 2\<rparr>))) = 1 \<and>
   contents (fout (fst (loop_body sample_routines unlimited sample_AMR475 sample_slot
     (sample_memory\<lparr>Loop_counter := 2\<rparr>)))) ! 250 = 0 \<and>
   contents (fout (fst (loop_body sample_routines unlimited sample_AMR475 sample_slot
     (sample_memory\<lparr>Loop_counter := 2\<rparr>)))) ! 250 \<noteq>
     (if bfi2 (fst (loop_body sample_routines unlimited sample_AMR475 sample_slot
        (sample_memory\<lparr>Loop_counter := 2\<rparr>))) \<noteq> 0 then 3 else 0)"
proof -
  let ?s = "sample_memory\<lparr>Loop_counter := 2\<rparr>"
  let ?s' = "fst (loop_body sample_routines unlimited sample_AMR475 sample_slot ?s)"
  have G: "CoderType sample_AMR475 \<noteq> 0"
    and L: "0 \<le> Length_vocoder_frame sample_AMR475" "Length_vocoder_frame sample_AMR475 \<le> 244"
    by (simp_all add: sample_AMR475_def)
  have lim: "\<forall>i<15. 244 \<le> unlimited (calls (fout ?s) + i)" by (simp add: unlimited_def)
  have n: "contents (fout sample_memory) = []" by (simp add: sample_memory_def)
  have b1: "bfi1 ?s' = 0" by (simp add: loop_body_bfi(3) [OF G] sample_verdict)
  have b2: "bfi2 ?s' = 1" by (simp add: loop_body_bfi(4) [OF G] sample_stealing_2)
  have h: "contents (fout ?s') ! 250 = 0"
    using loop_body_AMR_headers(2) [OF G L lim, of sample_routines sample_slot]
    by (simp add: n b1)
  show ?thesis by (simp add: b2 h)
qed

text \<open>
  C1 (amended). In AMR475 mode, for a slot whose writes are all complete and a frame
  length between 0 and 244, the slot's output is three records of 250 words; the header
  word before the first and before the second speech frame is derived from \<open>bfi1\<close>, the
  header before the third from \<open>bfi2\<close>, each being 3 when the indicator is non-zero and 0
  when it is zero.
\<close>

theorem AMR_headers:
  assumes "CoderType G = 1"
    and "0 \<le> Length_vocoder_frame G" and "Length_vocoder_frame G \<le> 244"
    and "\<forall>i<15. 244 \<le> lim (calls (fout s) + i)"
  shows
   "let s' = fst (loop_body E lim G slot s);
        out = contents (fout s');
        n = length (contents (fout s));
        L = Length_vocoder_frame G;
        m = word_of_int (CoderType G - 1)
    in out = contents (fout s) @
               AMR_record (bfi1 s') (Reordered_array s') 0 L m @
               AMR_record (bfi1 s') (Reordered_array s') (nat L) L m @
               AMR_record (bfi2 s') (Reordered_array s') (nat (2 * L)) L m \<and>
       out ! n = (if bfi1 s' \<noteq> 0 then 3 else 0) \<and>
       out ! (n + 250) = (if bfi1 s' \<noteq> 0 then 3 else 0) \<and>
       out ! (n + 500) = (if bfi2 s' \<noteq> 0 then 3 else 0)"
proof -
  from assms(1) have G: "CoderType G \<noteq> 0" by simp
  show ?thesis
    unfolding Let_def
    using loop_body_AMR_full(2) [OF G assms(2-4), of E slot]
      loop_body_AMR_headers [OF G assms(2-4), of E slot]
    by blast
qed

theorem AMR_headers_witness:
  "CoderType sample_AMR475 = 1 \<and> 0 \<le> Length_vocoder_frame sample_AMR475 \<and>
   Length_vocoder_frame sample_AMR475 \<le> 244 \<and>
   contents (fout (fst (loop_body sample_routines unlimited sample_AMR475 sample_slot
     (sample_memory\<lparr>Loop_counter := 2\<rparr>)))) ! 0 = 0 \<and>
   contents (fout (fst (loop_body sample_routines unlimited sample_AMR475 sample_slot
     (sample_memory\<lparr>Loop_counter := 2\<rparr>)))) ! 250 = 0 \<and>
   contents (fout (fst (loop_body sample_routines unlimited sample_AMR475 sample_slot
     (sample_memory\<lparr>Loop_counter := 2\<rparr>)))) ! 500 = 3"
proof -
  let ?s = "sample_memory\<lparr>Loop_counter := 2\<rparr>"
  let ?s' = "fst (loop_body sample_routines unlimited sample_AMR475 sample_slot ?s)"
  have G: "CoderType sample_AMR475 = 1"
    and L: "0 \<le> Length_vocoder_frame sample_AMR475" "Length_vocoder_frame sample_AMR475 \<le> 244"
    by (simp_all add: sample_AMR475_def)
  have lim: "\<forall>i<15. 244 \<le> unlimited (calls (fout ?s) + i)" by (simp add: unlimited_def)
  have n: "contents (fout sample_memory) = []" by (simp add: sample_memory_def)
  from G have G': "CoderType sample_AMR475 \<noteq> 0" by simp
  have b1: "bfi1 ?s' = 0" by (simp add: loop_body_bfi(3) [OF G'] sample_verdict)
  have b2: "bfi2 ?s' = 1" by (simp add: loop_body_bfi(4) [OF G'] sample_stealing_2)
  note h = AMR_headers [OF G L lim, of sample_routines sample_slot, unfolded Let_def]
  from h have
    "contents (fout ?s') ! length (contents (fout ?s)) = (if bfi1 ?s' \<noteq> 0 then 3 else 0)"
    "contents (fout ?s') ! (length (contents (fout ?s)) + 250) = (if bfi1 ?s' \<noteq> 0 then 3 else 0)"
    "contents (fout ?s') ! (length (contents (fout ?s)) + 500) = (if bfi2 ?s' \<noteq> 0 then 3 else 0)"
    by blast+
  then have "contents (fout ?s') ! 0 = 0 \<and> contents (fout ?s') ! 250 = 0 \<and>
      contents (fout ?s') ! 500 = 3"
    by (simp add: n b1 b2)
  with G L show ?thesis by blast
qed

text \<open>
  C2. A slot whose writes are all complete adds a fixed number of words to the output
  file: in TETRA mode \<open>bfi1\<close>, 137 frame words, \<open>bfi2\<close>, 137 frame words, 276 words in
  all; in AMR475 mode (frame length between 0 and 244) three records of 250 words each,
  750 words in all.
\<close>

theorem slot_record_size:
  "let s' = fst (loop_body E lim G slot s)
   in (CoderType G = 0 \<and> (\<forall>i<4. 137 \<le> lim (calls (fout s) + i)) \<longrightarrow>
         contents (fout s') =
           contents (fout s) @ [bfi1 s'] @ items (Reordered_array s') 0 137 @
           [bfi2 s'] @ items (Reordered_array s') 137 137 \<and>
         length (contents (fout s')) = length (contents (fout s)) + 276) \<and>
      (CoderType G = 1 \<and> 0 \<le> Length_vocoder_frame G \<and> Length_vocoder_frame G \<le> 244 \<and>
       (\<forall>i<15. 244 \<le> lim (calls (fout s) + i)) \<longrightarrow>
         (\<exists>r1 r2 r3. contents (fout s') = contents (fout s) @ r1 @ r2 @ r3 \<and>
            length r1 = 250 \<and> length r2 = 250 \<and> length r3 = 250) \<and>
         length (contents (fout s')) = length (contents (fout s)) + 750)"
proof -
  let ?s' = "fst (loop_body E lim G slot s)"
  have tetra: "contents (fout ?s') =
           contents (fout s) @ [bfi1 ?s'] @ items (Reordered_array ?s') 0 137 @
           [bfi2 ?s'] @ items (Reordered_array ?s') 137 137 \<and>
         length (contents (fout ?s')) = length (contents (fout s)) + 276"
    if "CoderType G = 0" "\<forall>i<4. 137 \<le> lim (calls (fout s) + i)"
  proof -
    note c = loop_body_TETRA_full(2) [OF that, of E slot]
    have "length (contents (fout ?s')) = length (contents (fout s)) + 276"
      by (subst c) (simp add: length_items)
    with c show ?thesis by simp
  qed
  have amr: "(\<exists>r1 r2 r3. contents (fout ?s') = contents (fout s) @ r1 @ r2 @ r3 \<and>
            length r1 = 250 \<and> length r2 = 250 \<and> length r3 = 250) \<and>
         length (contents (fout ?s')) = length (contents (fout s)) + 750"
    if G: "CoderType G = 1" and L: "0 \<le> Length_vocoder_frame G" "Length_vocoder_frame G \<le> 244"
      and lim: "\<forall>i<15. 244 \<le> lim (calls (fout s) + i)"
  proof -
    from G have G': "CoderType G \<noteq> 0" by simp
    note c = loop_body_AMR_full(2) [OF G' L lim, of E slot]
    note len = length_AMR_record [OF L]
    have "length (contents (fout ?s')) = length (contents (fout s)) + 750"
      by (subst c) (simp add: len)
    moreover have "\<exists>r1 r2 r3. contents (fout ?s') = contents (fout s) @ r1 @ r2 @ r3 \<and>
            length r1 = 250 \<and> length r2 = 250 \<and> length r3 = 250"
      using c len by blast
    ultimately show ?thesis by simp
  qed
  show ?thesis unfolding Let_def using tetra amr by blast
qed

theorem slot_record_size_witness:
  "CoderType sample_TETRA = 0 \<and>
   length (contents (fout (fst (loop_body sample_routines unlimited sample_TETRA sample_slot
     sample_memory)))) = 276 \<and>
   CoderType sample_AMR475 = 1 \<and> 0 \<le> Length_vocoder_frame sample_AMR475 \<and>
   Length_vocoder_frame sample_AMR475 \<le> 244 \<and>
   length (contents (fout (fst (loop_body sample_routines unlimited sample_AMR475 sample_slot
     sample_memory)))) = 750"
proof -
  have t: "CoderType sample_TETRA = 0"
    and a: "CoderType sample_AMR475 = 1" "Length_vocoder_frame sample_AMR475 = 95"
    by (simp_all add: sample_TETRA_def sample_AMR475_def)
  have m: "contents (fout sample_memory) = []" by (simp add: sample_memory_def)
  show ?thesis
    using slot_record_size [of sample_routines unlimited sample_TETRA sample_slot sample_memory]
      slot_record_size [of sample_routines unlimited sample_AMR475 sample_slot sample_memory]
    by (simp add: Let_def t a m unlimited_def length_items)
qed

text \<open>
  C3. With \<open>verdict\<close> the value returned by \<open>Channel_Decoding\<close> for the slot: in TETRA
  mode \<open>bfi2\<close> is the verdict, and \<open>bfi1\<close> is set to 1 if stealing is inactive and
  \<open>bfi2 = 1\<close>; in AMR475 mode \<open>bfi1\<close> is the verdict, and \<open>bfi2\<close> is set to 1 if stealing
  is inactive and \<open>bfi1 = 1\<close>. In every other case, a stolen slot among them, the other
  indicator keeps the value of the stealing flag.
\<close>

theorem cross_pollination:
  "let t = desinterleave E slot (set_stealing G s);
       verdict = fst (call_Channel_Decoding E t);
       s' = fst (loop_body E lim G slot s)
   in (CoderType G = 0 \<longrightarrow>
         bfi2 s' = verdict \<and>
         (Frame_stealing t = 0 \<and> bfi2 s' = 1 \<longrightarrow> bfi1 s' = 1) \<and>
         (\<not> (Frame_stealing t = 0 \<and> bfi2 s' = 1) \<longrightarrow> bfi1 s' = Frame_stealing t)) \<and>
      (CoderType G = 1 \<longrightarrow>
         bfi1 s' = verdict \<and>
         (Frame_stealing t = 0 \<and> bfi1 s' = 1 \<longrightarrow> bfi2 s' = 1) \<and>
         (\<not> (Frame_stealing t = 0 \<and> bfi1 s' = 1) \<longrightarrow> bfi2 s' = Frame_stealing t))"
  by (simp add: Let_def loop_body_bfi desinterleave_keeps)

theorem cross_pollination_witness:
  "CoderType sample_TETRA = 0 \<and> CoderType sample_AMR475 = 1 \<and>
   bfi2 (fst (loop_body sample_routines unlimited sample_TETRA sample_slot sample_memory)) = 0 \<and>
   bfi1 (fst (loop_body sample_routines unlimited sample_TETRA sample_slot sample_memory)) = 0 \<and>
   bfi1 (fst (loop_body sample_routines unlimited sample_AMR475 sample_slot
     (sample_memory\<lparr>Loop_counter := 2\<rparr>))) = 0 \<and>
   bfi2 (fst (loop_body sample_routines unlimited sample_AMR475 sample_slot
     (sample_memory\<lparr>Loop_counter := 2\<rparr>))) = 1"
proof -
  have t: "CoderType sample_TETRA = 0" by (simp add: sample_TETRA_def)
  have a: "CoderType sample_AMR475 = 1" by (simp add: sample_AMR475_def)
  show ?thesis
    using cross_pollination [of sample_routines sample_slot sample_TETRA sample_memory unlimited]
      cross_pollination [of sample_routines sample_slot sample_AMR475
        "sample_memory\<lparr>Loop_counter := 2\<rparr>" unlimited]
    by (simp add: Let_def t a sample_verdict desinterleave_keeps sample_stealing_2
        sample_stealing_0)
qed

text \<open>
  C4. In TETRA mode, on a slot with \<open>Frame_stealing = 1\<close>, \<open>bfi1\<close> is 1 at the end of
  the turn of the loop, and the first word written for the slot, when the device takes
  it, is 1.
\<close>

theorem stolen_slot_bfi1:
  assumes "CoderType G = 0" and "Frame_stealing (set_stealing G s) = 1"
  shows "bfi1 (fst (loop_body E lim G slot s)) = 1 \<and>
         (1 \<le> lim (calls (fout s)) \<longrightarrow>
            (\<exists>rest. contents (fout (fst (loop_body E lim G slot s))) =
                      contents (fout s) @ 1 # rest))"
proof -
  let ?u = "channel_decode E G (desinterleave E slot (set_stealing G s))"
  have b: "bfi1 (fst (loop_body E lim G slot s)) = 1"
    using assms by (simp add: loop_body_bfi)
  have u: "bfi1 ?u = 1"
    using b by (simp add: loop_body_def write_slot_keeps)
  have eq: "loop_body E lim G slot s = write_TETRA lim ?u"
    using assms(1) by (simp add: loop_body_def write_slot_def)
  have "\<exists>rest. contents (fout (fst (loop_body E lim G slot s))) = contents (fout s) @ 1 # rest"
    if "1 \<le> lim (calls (fout s))"
  proof -
    from that have "1 \<le> lim (calls (fout ?u))" by (simp only: loop_body_fout)
    from write_TETRA_first [of lim ?u, OF this] show ?thesis
      by (simp only: eq u loop_body_fout)
  qed
  with b show ?thesis by blast
qed

theorem stolen_slot_bfi1_witness:
  "CoderType sample_TETRA = 0 \<and>
   Frame_stealing (set_stealing sample_TETRA (sample_memory\<lparr>Loop_counter := 2\<rparr>)) = 1 \<and>
   1 \<le> unlimited (calls (fout (sample_memory\<lparr>Loop_counter := 2\<rparr>))) \<and>
   bfi1 (fst (loop_body sample_routines unlimited sample_TETRA sample_slot
     (sample_memory\<lparr>Loop_counter := 2\<rparr>))) = 1 \<and>
   (\<exists>rest. contents (fout (fst (loop_body sample_routines unlimited sample_TETRA sample_slot
       (sample_memory\<lparr>Loop_counter := 2\<rparr>)))) =
     contents (fout (sample_memory\<lparr>Loop_counter := 2\<rparr>)) @ 1 # rest)"
proof -
  have t: "CoderType sample_TETRA = 0" by (simp add: sample_TETRA_def)
  have u: "1 \<le> unlimited (calls (fout (sample_memory\<lparr>Loop_counter := 2\<rparr>)))"
    by (simp add: unlimited_def)
  show ?thesis
    using stolen_slot_bfi1 [OF t sample_stealing_2(1), of sample_routines unlimited sample_slot] u
    by (simp add: t sample_stealing_2)
qed

text \<open>
  An argument that is not the token \<open>S\<close> but begins with that letter enables stealing
  too: with \<open>Sx\<close> as the fifth argument the slot of index 2 is stolen.
\<close>

theorem stealing_without_S_token_counterexample:
  "[''cdecoder'', ''in'', ''out'', ''0'', ''Sx''] ! 4 \<noteq> ''S'' \<and>
   startup sample_routines [''cdecoder'', ''in'', ''out'', ''0'', ''Sx''] (Some sample_file) True =
     Inr (sample_TETRA, sample_file) \<and>
   \<not> snd (run_slots sample_routines unlimited sample_TETRA (take 2 sample_file)
           (init_locals sample_memory)) \<and>
   Frame_stealing
     (set_stealing sample_TETRA
       (fst (run_slots sample_routines unlimited sample_TETRA (take 2 sample_file)
          (init_locals sample_memory)))) = 1"
proof -
  have i: "Loop_counter (init_locals sample_memory) = 0"
    "Frame_stealing (init_locals sample_memory) = 0"
    by (simp_all add: init_locals_def)
  have b: "2 \<le> length sample_file" by (simp add: sample_file_def)
  have c: "(2::nat) < 2 ^ 31" by simp
  have d: "\<not> snd (run_slots sample_routines unlimited sample_TETRA (take 2 sample_file)
           (init_locals sample_memory))"
    by (rule run_slots_no_break [OF sample_limits(1,2)])
  have e: "FRAME_STEALING sample_TETRA \<noteq> 0" by (simp add: sample_TETRA_def TRUE_def)
  have "Frame_stealing
     (set_stealing sample_TETRA
       (fst (run_slots sample_routines unlimited sample_TETRA (take 2 sample_file)
          (init_locals sample_memory)))) = 1"
    using stealing_schedule [OF i b c d] e by simp
  with sample_startup(2) d show ?thesis by simp
qed

text \<open>
  C5 (amended). Stealing is simulated exactly when there is a fifth argument whose first
  character is \<open>S\<close>, the token \<open>S\<close> among them. Then, for a run that reaches the slot
  of index \<open>k\<close> (counted from 0, below \<open>2^31\<close>), the slot is stolen exactly when
  \<open>k mod 10 = 2\<close>; with no fifth argument, or one that does not begin with \<open>S\<close>, no slot
  is stolen.
\<close>

theorem stealing_slots:
  assumes "startup E argv fin out_ok = Inr (G, slots)"
    and "k < length slots" and "k < 2 ^ 31"
    and "\<not> snd (run_slots E lim G (take k slots) (init_locals mem))"
  shows "Frame_stealing
           (set_stealing G (fst (run_slots E lim G (take k slots) (init_locals mem)))) =
         (if length argv = 5 \<and> (\<exists>cs. argv ! 4 = CHR ''S'' # cs) \<and> k mod 10 = 2
          then 1 else 0)"
proof -
  have i: "Loop_counter (init_locals mem) = 0" "Frame_stealing (init_locals mem) = 0"
    by (simp_all add: init_locals_def)
  from assms(2) have k: "k \<le> length slots" by simp
  show ?thesis
    by (simp only: stealing_schedule [OF i k assms(3,4)] startup_globals(1) [OF assms(1)]
        conj_assoc)
qed

theorem stealing_slots_witness:
  "startup sample_routines [''cdecoder'', ''in'', ''out'', ''0'', ''S''] (Some sample_file) True =
     Inr (sample_TETRA, sample_file) \<and>
   2 < length sample_file \<and> (2::nat) < 2 ^ 31 \<and>
   \<not> snd (run_slots sample_routines unlimited sample_TETRA (take 2 sample_file)
           (init_locals sample_memory)) \<and>
   Frame_stealing
     (set_stealing sample_TETRA
       (fst (run_slots sample_routines unlimited sample_TETRA (take 2 sample_file)
          (init_locals sample_memory)))) = 1"
proof -
  have b: "2 < length sample_file" by (simp add: sample_file_def)
  have c: "(2::nat) < 2 ^ 31" by simp
  have d: "\<not> snd (run_slots sample_routines unlimited sample_TETRA (take 2 sample_file)
           (init_locals sample_memory))"
    by (rule run_slots_no_break [OF sample_limits(1,2)])
  from stealing_slots [OF sample_startup(1) b c d]
  have "Frame_stealing
     (set_stealing sample_TETRA
       (fst (run_slots sample_routines unlimited sample_TETRA (take 2 sample_file)
          (init_locals sample_memory)))) = 1"
    by simp
  with sample_startup(1) b c d show ?thesis by blast
qed

text \<open>
  C6. In AMR475 mode the results of the writes of the padding and of the mode word are
  dropped. A run over one slot whose output device takes the first fourteen writes and
  nothing of the fifteenth (four zeros asked for) prints no message about the output
  file, reads on to the end of the input and exits with status 0, the file four words
  short of its 750.
\<close>

theorem failed_padding_write_unreported:
  "disk_full_after 14 14 < 4 \<and>
   exit_status (main sample_routines (disk_full_after 14) sample_memory
      [''cdecoder'', ''in'', ''out'', ''1''] (Some [sample_slot]) True) = 0 \<and>
   printed (main sample_routines (disk_full_after 14) sample_memory
      [''cdecoder'', ''in'', ''out'', ''1''] (Some [sample_slot]) True) =
     [''cdecoder: reached end of input_file'' @ [CHR 0x0A],
      ''1 Channel Frames processed'' @ [CHR 0x0A],
      ''ie 3 Speech Frames'' @ [CHR 0x0A]] \<and>
   map_option length (written (main sample_routines (disk_full_after 14) sample_memory
      [''cdecoder'', ''in'', ''out'', ''1''] (Some [sample_slot]) True)) = Some 746"
proof -
  let ?G = "sample_AMR475\<lparr>FRAME_STEALING := FALSE\<rparr>"
  let ?s0 = "init_locals sample_memory :: unit state"
  let ?lim = "disk_full_after 14"
  let ?r = "loop_body sample_routines ?lim ?G sample_slot ?s0"
  have G: "CoderType ?G \<noteq> 0"
    and L: "0 \<le> Length_vocoder_frame ?G" "Length_vocoder_frame ?G \<le> 244"
    and S: "SpFrms_per_TDMFrm ?G = 3" "FRAME_STEALING ?G = 0"
    by (simp_all add: sample_AMR475_def FALSE_def)
  have i: "calls (fout ?s0) = 0" "contents (fout ?s0) = []" "stdout ?s0 = []"
    "Loop_counter ?s0 = 0" "Frame_stealing ?s0 = 0"
    by (simp_all add: init_locals_def)
  have lim: "\<forall>i<14. 244 \<le> ?lim (calls (fout ?s0) + i)"
    by (simp add: i disk_full_after_def)
  have full: "?lim (calls (fout ?s0) + 14) = 0"
    by (simp add: i disk_full_after_def)
  note b = loop_body_AMR_last_short [OF G L lim full, of sample_routines sample_slot]
  have fs: "Frame_stealing (set_stealing ?G ?s0) = 0"
    by (simp add: set_stealing_def S i)
  have out: "stdout (fst ?r) = []"
    by (simp add: loop_body_stdout fs sample_verdict b(1) i)
  have lc: "Loop_counter (fst ?r) = 1"
    by (simp add: loop_body_keeps i)
  have len: "length (contents (fout (fst ?r))) = 746"
    by (simp add: b(2) i)
  have loop: "main_loop sample_routines ?lim ?G [sample_slot] ?s0 =
      puts ''cdecoder: reached end of input_file'' (set_stealing ?G (fst ?r))"
    using b(1) by (simp add: case_prod_beta)
  have m: "main sample_routines ?lim sample_memory
      [''cdecoder'', ''in'', ''out'', ''1''] (Some [sample_slot]) True =
      finish ?G (puts ''cdecoder: reached end of input_file'' (set_stealing ?G (fst ?r)))"
    by (simp only: main_def sample_startup(3) sum.case prod.case loop)
  show ?thesis
    by (simp add: m finish_def Let_def puts_def printf_def set_stealing_keeps set_stealing_def
        S out lc len fmt_ld_1 fmt_ld_3 disk_full_after_def)
qed




text \<open>
  C10. For a run that reaches the slot of index \<open>k\<close> (counted from 0, with \<open>k + 1\<close>
  below \<open>2^31\<close>), the text printed during that turn of the loop is the message
  \<open>Frame Nb k+1 was stolen\<close> if the slot is stolen, then \<open>Frame Nb k+1 Bfi active\<close> if
  the decoder's indicator is set, then the write error if the loop is left. With
  stealing enabled the stolen slots are those with \<open>(k + 1) mod 10 = 3\<close>: the frames
  numbered 3, 13, 23 and so on.
\<close>

theorem frame_numbers:
  assumes "Loop_counter s0 = 0" and "k < length slots" and "k + 1 < 2 ^ 31"
    and "\<not> snd (run_slots E lim G (take k slots) s0)"
  shows
   "let s = fst (run_slots E lim G (take k slots) s0);
        r = loop_body E lim G (slots ! k) s;
        b = (if CoderType G = 0 then bfi2 (fst r) else bfi1 (fst r))
    in stdout (fst r) =
         stdout s @
         (if Frame_stealing (set_stealing G s) \<noteq> 0
          then [''Frame Nb '' @ fmt_ld (int k + 1) @ '' was stolen'' @ [CHR 0x0A]] else []) @
         (if b \<noteq> 0
          then [''Frame Nb '' @ fmt_ld (int k + 1) @ '' Bfi active'' @ [CHR 0x0A, CHR 0x0A]]
          else []) @
         (if snd r then [msg_cant_write @ [CHR 0x0A]] else []) \<and>
       (FRAME_STEALING G \<noteq> 0 \<longrightarrow>
          (Frame_stealing (set_stealing G s) \<noteq> 0) = ((k + 1) mod 10 = 3))"
proof -
  let ?s = "fst (run_slots E lim G (take k slots) s0)"
  have "Loop_counter ?s = Loop_counter s0 + of_nat (length (take k slots))"
    using assms(4) by (rule run_slots_Loop_counter)
  then have lc: "Loop_counter ?s = of_nat k" using assms(1,2) by simp
  have n: "sint (Loop_counter ?s + 1) = int k + 1"
    unfolding lc using assms(3) by (rule sint_Suc_32)
  have k: "k < 2 ^ 31" using assms(3) by simp
  have sched: "(Frame_stealing (set_stealing G ?s) \<noteq> 0) = ((k + 1) mod 10 = 3)"
    if "FRAME_STEALING G \<noteq> 0"
  proof -
    have "(Frame_stealing (set_stealing G ?s) \<noteq> 0) = (k mod 10 = 2)"
      using that by (simp add: set_stealing_def lc sint_of_nat_32 [OF k] smod_10_nat)
    also have "\<dots> = ((k + 1) mod 10 = 3)" by (simp add: mod_Suc)
    finally show ?thesis .
  qed
  show ?thesis
    unfolding Let_def loop_body_verdict
    using sched by (simp add: loop_body_stdout msg_stolen_def msg_bfi_def n)
qed

theorem frame_numbers_witness:
  "Loop_counter (init_locals sample_memory) = 0 \<and> 2 < length sample_file \<and>
   (2::nat) + 1 < 2 ^ 31 \<and>
   \<not> snd (run_slots sample_routines unlimited sample_TETRA (take 2 sample_file)
           (init_locals sample_memory)) \<and>
   FRAME_STEALING sample_TETRA \<noteq> 0 \<and>
   stdout (fst (loop_body sample_routines unlimited sample_TETRA (sample_file ! 2)
     (fst (run_slots sample_routines unlimited sample_TETRA (take 2 sample_file)
        (init_locals sample_memory))))) =
   stdout (fst (run_slots sample_routines unlimited sample_TETRA (take 2 sample_file)
        (init_locals sample_memory))) @ [''Frame Nb 3 was stolen'' @ [CHR 0x0A]]"
proof -
  let ?s = "fst (run_slots sample_routines unlimited sample_TETRA (take 2 sample_file)
        (init_locals sample_memory))"
  have a: "Loop_counter (init_locals sample_memory) = 0" by (simp add: init_locals_def)
  have b: "2 < length sample_file" by (simp add: sample_file_def)
  have c: "(2::nat) + 1 < 2 ^ 31" by simp
  have d: "\<not> snd (run_slots sample_routines unlimited sample_TETRA (take 2 sample_file)
           (init_locals sample_memory))"
    by (rule run_slots_no_break [OF sample_limits(1,2)])
  have e: "FRAME_STEALING sample_TETRA \<noteq> 0" by (simp add: sample_TETRA_def TRUE_def)
  have f: "\<not> snd (loop_body sample_routines unlimited sample_TETRA (sample_file ! 2) ?s)"
    by (rule loop_body_no_break [OF sample_limits(1,2)])
  note h = frame_numbers [OF a b c d, unfolded Let_def loop_body_verdict]
  from h e have g: "Frame_stealing (set_stealing sample_TETRA ?s) \<noteq> 0" by simp
  from h have "stdout (fst (loop_body sample_routines unlimited sample_TETRA (sample_file ! 2) ?s)) =
      stdout ?s @ [''Frame Nb 3 was stolen'' @ [CHR 0x0A]]"
    by (simp add: g f sample_verdict fmt_ld_3)
  with a b c d e show ?thesis by blast
qed

end
